theory Spec2Isabelle
  imports Complex_Main
begin

section \<open>Supplier updates: CSV reconciliation and batched commits\<close>

text \<open>
  A shallow embedding of the supplier-updates feature: the library functions of
  \<^verbatim>\<open>lib/supplier-updates\<close> (CSV parsing, record extraction, margins, chunking), the
  hooks of \<^verbatim>\<open>hooks/supplier-updates\<close> (field mapping, price edits, batch state) and
  the route's \<^verbatim>\<open>action\<close> and commit handlers.

  Conventions of the model.
  \<^item> A string is a list of 8-bit characters; the input is taken to be ASCII, so that
    \<^verbatim>\<open>trim\<close> and \<^verbatim>\<open>toLowerCase\<close> act on ASCII white space and ASCII letters.
  \<^item> An array index, a column index and a chunk size are natural numbers.
  \<^item> A loop whose termination depends on its arguments is a partial function into
    \<open>option\<close>: \<open>None\<close> means that the loop never returns.
\<close>

subsection \<open>Chunking\<close>

text \<open>
  \<^verbatim>\<open>
  export function chunkArray<T>(arr: T[], size: number): T[][] {
    const chunks: T[][] = [];
    for (let i = 0; i < arr.length; i += size) {
      chunks.push(arr.slice(i, i + size));
    }
    return chunks;
  }
  \<close>
  \<^verbatim>\<open>arr.slice(i, i + size)\<close> is \<open>take size (drop i arr)\<close>. With \<open>size = 0\<close> and a
  non-empty array the loop never advances.
\<close>

definition slice :: "'a list \<Rightarrow> nat \<Rightarrow> nat \<Rightarrow> 'a list" where
  "slice arr from until = take (until - from) (drop from arr)"

partial_function (option) chunk_loop ::
  "'a list \<Rightarrow> nat \<Rightarrow> nat \<Rightarrow> 'a list list \<Rightarrow> 'a list list option" where
  "chunk_loop arr sz i chunks =
     (if i < length arr
      then chunk_loop arr sz (i + sz) (chunks @ [slice arr i (i + sz)])
      else Some chunks)"

definition chunkArray :: "'a list \<Rightarrow> nat \<Rightarrow> 'a list list option" where
  "chunkArray arr sz = chunk_loop arr sz 0 []"

text \<open>\<^verbatim>\<open>chunkSkusForQuery\<close> of the GraphQL module is the same loop over SKU strings.\<close>

definition chunkSkusForQuery :: "string list \<Rightarrow> nat \<Rightarrow> string list list option" where
  "chunkSkusForQuery skus batchSize = chunk_loop skus batchSize 0 []"

text \<open>The chunks as a total function, for chunk sizes that make the loop advance.\<close>

fun chunks_of :: "nat \<Rightarrow> 'a list \<Rightarrow> 'a list list" where
  "chunks_of sz xs =
     (if sz = 0 \<or> xs = [] then [] else take sz xs # chunks_of sz (drop sz xs))"

declare chunks_of.simps [simp del]

lemma chunks_of_Nil [simp]: "chunks_of sz [] = []"
  by (simp add: chunks_of.simps)

lemma chunks_of_step:
  "0 < sz \<Longrightarrow> xs \<noteq> [] \<Longrightarrow> chunks_of sz xs = take sz xs # chunks_of sz (drop sz xs)"
  by (subst chunks_of.simps) simp

lemma chunk_loop_chunks_of:
  "0 < sz \<Longrightarrow> chunk_loop arr sz i acc = Some (acc @ chunks_of sz (drop i arr))"
proof (induction "length arr - i" arbitrary: i acc rule: less_induct)
  case less
  show ?case
  proof (cases "i < length arr")
    case False
    then show ?thesis by (subst chunk_loop.simps) simp
  next
    case True
    then have ne: "drop i arr \<noteq> []" by simp
    from True less.prems have "length arr - (i + sz) < length arr - i" by arith
    from less.hyps [OF this less.prems]
    have "chunk_loop arr sz (i + sz) (acc @ [slice arr i (i + sz)])
            = Some ((acc @ [slice arr i (i + sz)]) @ chunks_of sz (drop (i + sz) arr))" .
    moreover have "drop (i + sz) arr = drop sz (drop i arr)"
      by (simp add: add.commute)
    ultimately show ?thesis
      using True less.prems ne
      by (subst chunk_loop.simps) (simp add: chunks_of_step slice_def)
  qed
qed

lemma chunkArray_chunks_of: "0 < sz \<Longrightarrow> chunkArray arr sz = Some (chunks_of sz arr)"
  by (simp add: chunkArray_def chunk_loop_chunks_of)

lemma concat_chunks_of: "0 < sz \<Longrightarrow> concat (chunks_of sz xs) = xs"
proof (induction sz xs rule: chunks_of.induct)
  case (1 sz xs)
  then show ?case by (cases "xs = []") (simp_all add: chunks_of_step)
qed

lemma chunks_of_bounds:
  "0 < sz \<Longrightarrow> c \<in> set (chunks_of sz xs) \<Longrightarrow> c \<noteq> [] \<and> length c \<le> sz"
proof (induction sz xs rule: chunks_of.induct)
  case (1 sz xs)
  then show ?case by (cases "xs = []") (auto simp: chunks_of_step)
qed

lemma chunks_of_full:
  "0 < sz \<Longrightarrow> c \<in> set (butlast (chunks_of sz xs)) \<Longrightarrow> length c = sz"
proof (induction sz xs rule: chunks_of.induct)
  case (1 sz xs)
  show ?case
  proof (cases "xs = []")
    case True
    with 1 show ?thesis by simp
  next
    case False
    note ne = this
    show ?thesis
    proof (cases "drop sz xs = []")
      case True
      with 1 ne show ?thesis by (simp add: chunks_of_step)
    next
      case False
      then have long: "sz < length xs" by simp
      from False "1.prems" have "chunks_of sz (drop sz xs) \<noteq> []"
        by (simp add: chunks_of_step)
      with 1 ne long show ?thesis
        by (auto simp: chunks_of_step)
    qed
  qed
qed

text \<open>
  C10. For every list and every chunk size of at least one, \<open>chunkArray\<close> (and the
  identical \<open>chunkSkusForQuery\<close>) returns; concatenating the chunks in order gives back
  the list, every chunk is non-empty and holds at most \<open>sz\<close> elements, and every chunk
  but the last holds exactly \<open>sz\<close>.
\<close>

theorem chunkArray_partition:
  assumes "1 \<le> sz"
  shows "\<exists>cs. chunkArray xs sz = Some cs \<and> chunkSkusForQuery skus sz = chunkArray skus sz
           \<and> concat cs = xs
           \<and> (\<forall>c \<in> set cs. c \<noteq> [] \<and> length c \<le> sz)
           \<and> (\<forall>c \<in> set (butlast cs). length c = sz)"
proof -
  from assms have pos: "0 < sz" by simp
  have "chunkArray xs sz = Some (chunks_of sz xs)"
    using pos by (rule chunkArray_chunks_of)
  moreover have "chunkSkusForQuery skus sz = chunkArray skus sz"
    by (simp add: chunkSkusForQuery_def chunkArray_def)
  moreover have "concat (chunks_of sz xs) = xs"
    using pos by (rule concat_chunks_of)
  moreover have "\<forall>c \<in> set (chunks_of sz xs). c \<noteq> [] \<and> length c \<le> sz"
    using pos chunks_of_bounds by blast
  moreover have "\<forall>c \<in> set (butlast (chunks_of sz xs)). length c = sz"
    using pos chunks_of_full by blast
  ultimately show ?thesis by blast
qed

theorem chunkArray_partition_witness:
  "(1::nat) \<le> 2 \<and> chunkArray [1, 2, 3, 4, 5 :: nat] 2 = Some [[1, 2], [3, 4], [5]]"
proof -
  have h: "(1::nat) \<le> 2" by simp
  from chunkArray_partition [OF h, of "[1, 2, 3, 4, 5 :: nat]" "[]"]
  obtain cs where cs: "chunkArray [1, 2, 3, 4, 5 :: nat] 2 = Some cs" by blast
  have "chunkArray [1, 2, 3, 4, 5 :: nat] 2 = Some (chunks_of 2 [1, 2, 3, 4, 5])"
    by (simp add: chunkArray_chunks_of)
  also have "chunks_of 2 [1, 2, 3, 4, 5 :: nat] = [[1, 2], [3, 4], [5]]"
    by (simp add: chunks_of_step)
  finally show ?thesis using h cs by simp
qed

subsection \<open>Numbers\<close>

text \<open>
  A JavaScript \<^verbatim>\<open>number\<close>, idealised: a finite value is an exact real (rounding to a
  double is not modelled, and the two zeros are one, taken as \<^verbatim>\<open>+0\<close>), next to the
  three special values. Arithmetic and comparison on them follow IEEE 754: a
  comparison with \<^verbatim>\<open>NaN\<close> is false, a non-zero value over zero is an infinity, and
  \<^verbatim>\<open>0 / 0\<close> is \<^verbatim>\<open>NaN\<close>.
\<close>

datatype number = Fin real | PosInf | NegInf | NaN

fun isNaN :: "number \<Rightarrow> bool" where
  "isNaN NaN = True"
| "isNaN _ = False"

fun num_lt :: "number \<Rightarrow> number \<Rightarrow> bool" where
  "num_lt NaN _ = False"
| "num_lt _ NaN = False"
| "num_lt (Fin x) (Fin y) = (x < y)"
| "num_lt (Fin x) PosInf = True"
| "num_lt (Fin x) NegInf = False"
| "num_lt PosInf _ = False"
| "num_lt NegInf NegInf = False"
| "num_lt NegInf _ = True"

fun num_le :: "number \<Rightarrow> number \<Rightarrow> bool" where
  "num_le NaN _ = False"
| "num_le _ NaN = False"
| "num_le (Fin x) (Fin y) = (x \<le> y)"
| "num_le (Fin x) PosInf = True"
| "num_le (Fin x) NegInf = False"
| "num_le PosInf PosInf = True"
| "num_le PosInf _ = False"
| "num_le NegInf _ = True"

text \<open>The sign of a value that is not \<^verbatim>\<open>NaN\<close>: negative, zero or positive.\<close>

fun num_sgn :: "number \<Rightarrow> int" where
  "num_sgn (Fin x) = (if x < 0 then - 1 else if x = 0 then 0 else 1)"
| "num_sgn PosInf = 1"
| "num_sgn NegInf = - 1"
| "num_sgn NaN = 0"

definition signed_inf :: "int \<Rightarrow> number" where
  "signed_inf s = (if s < 0 then NegInf else PosInf)"

fun num_div :: "number \<Rightarrow> number \<Rightarrow> number" where
  "num_div NaN _ = NaN"
| "num_div _ NaN = NaN"
| "num_div (Fin x) (Fin y) =
     (if y \<noteq> 0 then Fin (x / y)
      else if x = 0 then NaN
      else signed_inf (num_sgn (Fin x)))"
| "num_div (Fin x) _ = Fin 0"
| "num_div a (Fin y) = signed_inf (num_sgn a * (if y < 0 then - 1 else 1))"
| "num_div _ _ = NaN"

fun num_mul :: "number \<Rightarrow> number \<Rightarrow> number" where
  "num_mul NaN _ = NaN"
| "num_mul _ NaN = NaN"
| "num_mul (Fin x) (Fin y) = Fin (x * y)"
| "num_mul a b =
     (if num_sgn a = 0 \<or> num_sgn b = 0 then NaN else signed_inf (num_sgn a * num_sgn b))"

fun num_sub :: "number \<Rightarrow> number \<Rightarrow> number" where
  "num_sub NaN _ = NaN"
| "num_sub _ NaN = NaN"
| "num_sub (Fin x) (Fin y) = Fin (x - y)"
| "num_sub (Fin x) PosInf = NegInf"
| "num_sub (Fin x) NegInf = PosInf"
| "num_sub PosInf PosInf = NaN"
| "num_sub PosInf _ = PosInf"
| "num_sub NegInf NegInf = NaN"
| "num_sub NegInf _ = NegInf"

subsection \<open>Margins\<close>

text \<open>
  \<^verbatim>\<open>
  export function calculateMargin(price: number, cost: number): number {
    if (cost <= 0) return 0;
    return (price / cost) * 100 - 100;
  }
  export function getMarginStatus(margin: number, threshold: number): MarginStatus {
    if (margin < 0) return "negative";
    if (margin < threshold) return "medium";
    return "good";
  }
  \<close>
\<close>

datatype MarginStatus = Good | Medium | Negative

definition calculateMargin :: "number \<Rightarrow> number \<Rightarrow> number" where
  "calculateMargin price cost =
     (if num_le cost (Fin 0) then Fin 0
      else num_sub (num_mul (num_div price cost) (Fin 100)) (Fin 100))"

definition getMarginStatus :: "number \<Rightarrow> number \<Rightarrow> MarginStatus" where
  "getMarginStatus margin threshold =
     (if num_lt margin (Fin 0) then Negative
      else if num_lt margin threshold then Medium
      else Good)"

text \<open>
  C8. The margin is \<open>0\<close> for every price when the cost is at most \<open>0\<close>, and
  \<open>(price / cost) * 100 - 100\<close> otherwise; over thresholds \<open>t \<ge> 0\<close> the status is
  negative for every margin below \<open>0\<close>, medium for every margin \<open>m\<close> with
  \<open>0 \<le> m < t\<close>, and good for every margin \<open>m \<ge> t\<close>. Both are functions of their
  arguments alone.
\<close>

theorem margin_and_status:
  "(num_le cost (Fin 0) \<longrightarrow> calculateMargin price cost = Fin 0)
   \<and> (\<not> num_le cost (Fin 0) \<longrightarrow>
        calculateMargin price cost = num_sub (num_mul (num_div price cost) (Fin 100)) (Fin 100))
   \<and> (0 < c \<longrightarrow> calculateMargin (Fin p) (Fin c) = Fin (p / c * 100 - 100))
   \<and> (num_le (Fin 0) t \<and> num_lt m (Fin 0) \<longrightarrow> getMarginStatus m t = Negative)
   \<and> (num_le (Fin 0) m \<and> num_lt m t \<longrightarrow> getMarginStatus m t = Medium)
   \<and> (num_le (Fin 0) t \<and> num_le t m \<longrightarrow> getMarginStatus m t = Good)"
proof -
  have margin0: "num_le cost (Fin 0) \<longrightarrow> calculateMargin price cost = Fin 0"
    by (simp add: calculateMargin_def)
  have margin1: "\<not> num_le cost (Fin 0) \<longrightarrow>
      calculateMargin price cost = num_sub (num_mul (num_div price cost) (Fin 100)) (Fin 100)"
    by (simp add: calculateMargin_def)
  have margin2: "0 < c \<longrightarrow> calculateMargin (Fin p) (Fin c) = Fin (p / c * 100 - 100)"
    by (simp add: calculateMargin_def)
  have neg: "num_le (Fin 0) t \<and> num_lt m (Fin 0) \<longrightarrow> getMarginStatus m t = Negative"
    by (simp add: getMarginStatus_def)
  have med: "num_le (Fin 0) m \<and> num_lt m t \<longrightarrow> getMarginStatus m t = Medium"
    by (cases m) (auto simp: getMarginStatus_def)
  have good: "num_le (Fin 0) t \<and> num_le t m \<longrightarrow> getMarginStatus m t = Good"
    by (cases m; cases t) (auto simp: getMarginStatus_def)
  from margin0 margin1 margin2 neg med good show ?thesis by blast
qed

theorem margin_and_status_witness:
  "calculateMargin (Fin 15) (Fin 0) = Fin 0
   \<and> calculateMargin (Fin 15) (Fin 10) = Fin 50
   \<and> getMarginStatus (Fin (- 0.01)) (Fin 5) = Negative
   \<and> getMarginStatus (Fin 0) (Fin 5) = Medium
   \<and> getMarginStatus (Fin 4.999) (Fin 5) = Medium
   \<and> getMarginStatus (Fin 5) (Fin 5) = Good"
proof -
  have "calculateMargin (Fin 15) (Fin 0) = Fin 0"
    using margin_and_status [of "Fin 0" "Fin 15" 1 0 "Fin 0" "Fin 0"] by simp
  moreover have "calculateMargin (Fin 15) (Fin 10) = Fin 50"
    using margin_and_status [of "Fin 10" "Fin 15" 10 15 "Fin 0" "Fin 0"] by simp
  moreover have "getMarginStatus (Fin (- 0.01)) (Fin 5) = Negative"
    using margin_and_status [of "Fin 0" "Fin 0" 1 0 "Fin 5" "Fin (- 0.01)"] by simp
  moreover have "getMarginStatus (Fin 0) (Fin 5) = Medium"
    using margin_and_status [of "Fin 0" "Fin 0" 1 0 "Fin 5" "Fin 0"] by simp
  moreover have "getMarginStatus (Fin 4.999) (Fin 5) = Medium"
    using margin_and_status [of "Fin 0" "Fin 0" 1 0 "Fin 5" "Fin 4.999"] by simp
  moreover have "getMarginStatus (Fin 5) (Fin 5) = Good"
    using margin_and_status [of "Fin 0" "Fin 0" 1 0 "Fin 5" "Fin 5"] by simp
  ultimately show ?thesis by blast
qed

subsection \<open>Column mapping\<close>

text \<open>
  The state of \<^verbatim>\<open>useCSVFieldMapping\<close>. Each of the three fields holds a constant label
  (not modelled) and a value: \<^verbatim>\<open>number | null\<close> for the SKU and the cost column,
  \<^verbatim>\<open>number | "none" | null\<close> for the stock-on-hand column.
  \<^verbatim>\<open>
  const allFieldsSelected = useMemo(() => {
    return (
      fields.sku.value !== null &&
      fields.cost.value !== null &&
      fields.soh.value !== null
    );
  }, [fields]);
  \<close>
\<close>

datatype soh_value = SohNull | SohNone | SohColumn nat

record CSVFieldMapping =
  sku_value :: "nat option"
  cost_value :: "nat option"
  soh_value :: soh_value

datatype field_update = SetSku "nat option" | SetCost "nat option" | SetSoh soh_value

definition resetFields :: CSVFieldMapping where
  "resetFields = \<lparr>sku_value = None, cost_value = None, soh_value = SohNull\<rparr>"

fun updateField :: "CSVFieldMapping \<Rightarrow> field_update \<Rightarrow> CSVFieldMapping" where
  "updateField prev (SetSku v) = prev\<lparr>sku_value := v\<rparr>"
| "updateField prev (SetCost v) = prev\<lparr>cost_value := v\<rparr>"
| "updateField prev (SetSoh v) = prev\<lparr>soh_value := v\<rparr>"

definition allFieldsSelected :: "CSVFieldMapping \<Rightarrow> bool" where
  "allFieldsSelected flds =
     (sku_value flds \<noteq> None \<and> cost_value flds \<noteq> None \<and> soh_value flds \<noteq> SohNull)"

text \<open>
  C6, as the claim states it, fails: with the SKU and the cost column chosen and the
  stock column still unset the check is false.
\<close>

theorem allFieldsSelected_stock_unset_counterexample:
  "\<not> allFieldsSelected
        (updateField (updateField resetFields (SetSku (Some 0))) (SetCost (Some 1)))"
  by (simp add: allFieldsSelected_def resetFields_def)

text \<open>
  C6, amended. The check is true if and only if all three fields are set, where the
  stock field counts as set once it holds a column index or the sentinel \<^verbatim>\<open>"none"\<close>;
  with the stock field unset the check is false whatever the other two hold.
\<close>

theorem allFieldsSelected_iff:
  "allFieldsSelected flds =
     ((\<exists>i. sku_value flds = Some i) \<and> (\<exists>j. cost_value flds = Some j)
      \<and> (soh_value flds = SohNone \<or> (\<exists>k. soh_value flds = SohColumn k)))
   \<and> \<not> allFieldsSelected (updateField flds (SetSoh SohNull))"
  by (cases "soh_value flds") (auto simp: allFieldsSelected_def)

subsection \<open>Reconciled items and price edits\<close>

text \<open>
  \<^verbatim>\<open>NormalizedProduct\<close>. The field \<^verbatim>\<open>id\<close> (the parent product) is \<open>productId\<close> here and
  \<^verbatim>\<open>image\<close> is \<open>imageUrl\<close>; quantities are integers; the optional \<^verbatim>\<open>editing\<close> field,
  which no function below reads or writes, is left out.
\<close>

record NormalizedProduct =
  productId :: string
  variantId :: string
  inventoryItemId :: string
  sku :: string
  name :: string
  imageUrl :: string
  cost :: number
  price :: number
  quantity :: int
  costNew :: number
  quantityNew :: int
  margin :: number
  marginStatus :: MarginStatus
  update :: bool

text \<open>
  \<^verbatim>\<open>updateProductPrice\<close> of \<^verbatim>\<open>usePricingProducts\<close>; \<open>threshold\<close> is the hook's state
  variable \<^verbatim>\<open>margin\<close>.
  \<^verbatim>\<open>
  prev.map((p) => {
    if (p.variantId !== variantId) return p;
    const newMargin = (newPrice / p.costNew) * 100 - 100;
    return { ...p, price: newPrice, margin: newMargin,
      marginStatus: newMargin < 0 ? "negative" : newMargin < margin ? "medium" : "good" };
  })
  \<close>
\<close>

definition updateProductPrice ::
  "number \<Rightarrow> string \<Rightarrow> number \<Rightarrow> NormalizedProduct list \<Rightarrow> NormalizedProduct list" where
  "updateProductPrice threshold vid newPrice prev =
     map (\<lambda>p.
       if variantId p \<noteq> vid then p
       else
         let newMargin = num_sub (num_mul (num_div newPrice (costNew p)) (Fin 100)) (Fin 100)
         in p\<lparr>price := newPrice, margin := newMargin,
              marginStatus :=
                (if num_lt newMargin (Fin 0) then Negative
                 else if num_lt newMargin threshold then Medium
                 else Good)\<rparr>) prev"

text \<open>Toggling inclusion, and the re-classification that follows a threshold change.\<close>

definition toggleProductUpdate :: "string \<Rightarrow> NormalizedProduct list \<Rightarrow> NormalizedProduct list" where
  "toggleProductUpdate vid prev =
     map (\<lambda>p. if variantId p = vid then p\<lparr>update := \<not> update p\<rparr> else p) prev"

definition reclassify :: "number \<Rightarrow> NormalizedProduct list \<Rightarrow> NormalizedProduct list" where
  "reclassify threshold prev =
     map (\<lambda>p. let nextStatus = getMarginStatus (margin p) threshold
              in if marginStatus p = nextStatus then p else p\<lparr>marginStatus := nextStatus\<rparr>) prev"

lemma updateProductPrice_others:
  "length (updateProductPrice t vid np ps) = length ps
   \<and> (\<forall>i < length ps. variantId (ps ! i) \<noteq> vid \<longrightarrow> updateProductPrice t vid np ps ! i = ps ! i)"
  by (simp add: updateProductPrice_def)

lemma updateProductPrice_positive_cost:
  assumes "i < length ps" and "variantId (ps ! i) = vid" and "\<not> num_le (costNew (ps ! i)) (Fin 0)"
  shows "updateProductPrice t vid np ps ! i =
           (ps ! i)\<lparr>price := np, margin := calculateMargin np (costNew (ps ! i)),
                     marginStatus := getMarginStatus (calculateMargin np (costNew (ps ! i))) t\<rparr>"
  using assms
  by (simp add: updateProductPrice_def calculateMargin_def getMarginStatus_def Let_def)

text \<open>
  C3. A price edit on an item whose new cost is \<open>0\<close> (a cost cell that was empty or not
  a number) does not store the margin \<open>0\<close> that \<open>calculateMargin\<close> gives for such a cost,
  nor the status that follows from it: the inlined formula divides by the cost without
  the guard, so the item gets the margin \<^verbatim>\<open>Infinity\<close> and the status good.
\<close>

theorem updateProductPrice_zero_cost:
  "updateProductPrice (Fin 5) ''v1'' (Fin 10)
     [\<lparr>productId = ''p1'', variantId = ''v1'', inventoryItemId = ''i1'', sku = ''A1'',
       name = ''Widget'', imageUrl = [], cost = Fin 8, price = Fin 15, quantity = 3,
       costNew = Fin 0, quantityNew = 3, margin = Fin 0, marginStatus = Medium,
       update = True\<rparr>]
   = [\<lparr>productId = ''p1'', variantId = ''v1'', inventoryItemId = ''i1'', sku = ''A1'',
       name = ''Widget'', imageUrl = [], cost = Fin 8, price = Fin 10, quantity = 3,
       costNew = Fin 0, quantityNew = 3, margin = PosInf, marginStatus = Good,
       update = True\<rparr>]
   \<and> calculateMargin (Fin 10) (Fin 0) = Fin 0
   \<and> getMarginStatus (calculateMargin (Fin 10) (Fin 0)) (Fin 5) = Medium"
  by (simp add: updateProductPrice_def calculateMargin_def getMarginStatus_def signed_inf_def)

subsection \<open>Strings\<close>

text \<open>
  \<^verbatim>\<open>String.prototype.trim\<close> removes white space and line terminators from both ends;
  on ASCII text these are the space, tab, line feed, vertical tab, form feed and carriage
  return. \<^verbatim>\<open>toLowerCase\<close> maps the ASCII capitals to their small letters.
\<close>

definition LF :: char where "LF = CHR 0x0A"
definition CR :: char where "CR = CHR 0x0D"
definition quote :: char where "quote = CHR 0x22"
definition comma :: char where "comma = CHR '',''"

definition isWhiteSpace :: "char \<Rightarrow> bool" where
  "isWhiteSpace c = (c \<in> {CHR '' '', CHR 0x09, CHR 0x0A, CHR 0x0B, CHR 0x0C, CHR 0x0D})"

definition trim :: "string \<Rightarrow> string" where
  "trim s = rev (dropWhile isWhiteSpace (rev (dropWhile isWhiteSpace s)))"

definition lowerChar :: "char \<Rightarrow> char" where
  "lowerChar c =
     (let n = (of_char c :: nat)
      in if of_char (CHR ''A'') \<le> n \<and> n \<le> of_char (CHR ''Z'') then char_of (n + 32) else c)"

definition toLowerCase :: "string \<Rightarrow> string" where
  "toLowerCase s = map lowerChar s"

subsection \<open>CSV parsing\<close>

text \<open>
  \<^verbatim>\<open>text.split(/\r?\n/)\<close>: scanning from the left, a line feed, or a carriage return
  directly followed by a line feed, ends the current line; a string without a separator
  is one line, so the result is never empty.
\<close>

fun split_lines :: "string \<Rightarrow> string \<Rightarrow> string list" where
  "split_lines cur [] = [cur]"
| "split_lines cur (c # cs) =
     (if c = LF then cur # split_lines [] cs
      else if c = CR then
        (case cs of
           [] \<Rightarrow> split_lines (cur @ [c]) cs
         | d # ds \<Rightarrow> if d = LF then cur # split_lines [] ds else split_lines (cur @ [c]) cs)
      else split_lines (cur @ [c]) cs)"

text \<open>
  The inner loop of \<^verbatim>\<open>parseCSV\<close> over one line, with the characters from index \<open>i\<close> on
  as the last argument, followed by the push of the last field:
  \<^verbatim>\<open>
  for (let i = 0; i < line.length; i++) {
    const char = line[i];
    if (char === '"') {
      if (inQuotes && line[i + 1] === '"') { current += '"'; i++; }
      else { inQuotes = !inQuotes; }
    } else if (char === "," && !inQuotes) {
      row.push(current.trim()); current = "";
    } else { current += char; }
  }
  row.push(current.trim());
  \<close>
\<close>

fun scan :: "string list \<Rightarrow> string \<Rightarrow> bool \<Rightarrow> string \<Rightarrow> string list" where
  "scan row current inQuotes [] = row @ [trim current]"
| "scan row current inQuotes (c # cs) =
     (if c = quote then
        (case cs of
           [] \<Rightarrow> scan row current (\<not> inQuotes) cs
         | d # ds \<Rightarrow>
             if inQuotes \<and> d = quote then scan row (current @ [quote]) inQuotes ds
             else scan row current (\<not> inQuotes) cs)
      else if c = comma \<and> \<not> inQuotes then scan (row @ [trim current]) [] inQuotes cs
      else scan row (current @ [c]) inQuotes cs)"

definition parse_line :: "string \<Rightarrow> string list" where
  "parse_line line = scan [] [] False line"

fun parse_lines :: "string list \<Rightarrow> string list list" where
  "parse_lines [] = []"
| "parse_lines (line # lines) =
     (if trim line = [] then parse_lines lines else parse_line line # parse_lines lines)"

definition parseCSV :: "string \<Rightarrow> string list list" where
  "parseCSV text = parse_lines (split_lines [] text)"

lemma parse_lines_append: "parse_lines (xs @ ys) = parse_lines xs @ parse_lines ys"
  by (induction xs) auto

lemma CR_neq_LF [simp]: "CR \<noteq> LF" "LF \<noteq> CR"
  by (simp_all add: CR_def LF_def)

lemma split_lines_no_LF: "LF \<notin> set l \<Longrightarrow> split_lines cur l = [cur @ l]"
proof (induction l arbitrary: cur)
  case Nil
  then show ?case by simp
next
  case (Cons c l)
  from Cons.prems have c: "c \<noteq> LF" and l: "LF \<notin> set l" by auto
  have step: "split_lines cur (c # l) = split_lines (cur @ [c]) l"
    using c l by (cases l) auto
  show ?case unfolding step using Cons.IH [OF l] by simp
qed

lemma split_lines_CRLF:
  "LF \<notin> set l \<Longrightarrow> split_lines cur (l @ CR # LF # rest) = (cur @ l) # split_lines [] rest"
proof (induction l arbitrary: cur)
  case Nil
  then show ?case by simp
next
  case (Cons c l)
  from Cons.prems have c: "c \<noteq> LF" and l: "LF \<notin> set l" by auto
  have step: "split_lines cur ((c # l) @ CR # LF # rest) = split_lines (cur @ [c]) (l @ CR # LF # rest)"
    using c l by (cases l) auto
  show ?case unfolding step using Cons.IH [OF l] by simp
qed

lemma split_lines_LF:
  "LF \<notin> set l \<Longrightarrow> l = [] \<or> last l \<noteq> CR \<Longrightarrow>
   split_lines cur (l @ LF # rest) = (cur @ l) # split_lines [] rest"
proof (induction l arbitrary: cur)
  case Nil
  then show ?case by simp
next
  case (Cons c l)
  from Cons.prems have c: "c \<noteq> LF" and l: "LF \<notin> set l" by auto
  from Cons.prems have last: "l = [] \<or> last l \<noteq> CR" by (auto split: if_splits)
  from Cons.prems have c2: "l = [] \<Longrightarrow> c \<noteq> CR" by auto
  have step: "split_lines cur ((c # l) @ LF # rest) = split_lines (cur @ [c]) (l @ LF # rest)"
    using c l c2 by (cases l) auto
  show ?case unfolding step using Cons.IH [OF l last] by simp
qed

lemma trim_idem: "trim (trim s) = trim s"
proof -
  define t where "t = dropWhile isWhiteSpace s"
  define u where "u = rev (dropWhile isWhiteSpace (rev t))"
  define w where "w = rev (takeWhile isWhiteSpace (rev t))"
  have "rev (rev t) = rev (takeWhile isWhiteSpace (rev t) @ dropWhile isWhiteSpace (rev t))"
    by simp
  then have tu: "t = u @ w"
    unfolding u_def w_def by (simp only: rev_append rev_rev_ident)
  have hd_u: "hd u = hd t" if "u \<noteq> []"
  proof -
    have "hd (u @ w) = hd u" using that by simp
    with tu show ?thesis by simp
  qed
  have t_ne: "t \<noteq> []" if "u \<noteq> []"
    using that unfolding u_def by auto
  have "\<not> isWhiteSpace (hd u)" if "u \<noteq> []"
    using hd_u [OF that] t_ne [OF that] hd_dropWhile [of isWhiteSpace s] unfolding t_def by simp
  then have "dropWhile isWhiteSpace u = u"
    by (auto simp: dropWhile_eq_self_iff)
  then have "trim u = u"
    unfolding trim_def u_def by simp
  then show ?thesis
    unfolding trim_def u_def t_def .
qed

lemma comma_neq_quote [simp]: "comma \<noteq> quote" "quote \<noteq> comma"
  by (simp_all add: comma_def quote_def)

lemma scan_cells:
  "\<forall>c \<in> set row. trim c = c \<Longrightarrow> \<forall>c \<in> set (scan row current q cs). trim c = c"
proof (induction row current q cs rule: scan.induct)
  case (1 row current inQuotes)
  then show ?case by (simp add: trim_idem)
next
  case (2 row current inQuotes c cs)
  have pushed: "\<forall>c \<in> set (row @ [trim current]). trim c = c"
    using "2.prems" by (simp add: trim_idem)
  show ?case
  proof (cases "c = quote")
    case True
    show ?thesis
    proof (cases cs)
      case Nil
      with True "2.IH"(1) "2.prems" show ?thesis by simp
    next
      case (Cons d ds)
      with True "2.IH"(2,3) "2.prems" show ?thesis by simp
    qed
  next
    case False
    with "2.IH"(4,5) "2.prems" pushed show ?thesis by simp
  qed
qed

lemma scan_nonempty: "scan row current q cs \<noteq> []"
proof (induction row current q cs rule: scan.induct)
  case (1 row current inQuotes)
  then show ?case by simp
next
  case (2 row current inQuotes c cs)
  show ?case
  proof (cases "c = quote")
    case True
    show ?thesis
    proof (cases cs)
      case Nil
      with True "2.IH"(1) show ?thesis by simp
    next
      case (Cons d ds)
      with True "2.IH"(2,3) show ?thesis by simp
    qed
  next
    case False
    with "2.IH"(4,5) show ?thesis by simp
  qed
qed

lemma parse_lines_rows:
  "r \<in> set (parse_lines ls) \<Longrightarrow> \<exists>l \<in> set ls. trim l \<noteq> [] \<and> r = parse_line l"
  by (induction ls) (auto split: if_splits)

text \<open>
  C9. The parser splits the text at every line feed, together with a carriage return
  directly before it; a line that is blank after trimming gives no row and every other
  line gives exactly one. Within a line a doubled quote inside an open quote is a literal
  quote, a comma outside quotes ends the cell, which is stored trimmed, a comma inside
  quotes is content, and the last cell is pushed when the line ends, so that no row is
  empty and every cell is trimmed. The function is total: nothing in it can raise (a read
  past the end of the line yields \<^verbatim>\<open>undefined\<close>, which only fails the comparison).
  The escaped-quote example of the specification evaluates as stated.
\<close>

theorem parseCSV_contract:
  "(LF \<notin> set l \<longrightarrow> parseCSV (l @ CR # LF # rest) = parseCSV l @ parseCSV rest)
   \<and> (LF \<notin> set l \<and> (l = [] \<or> last l \<noteq> CR) \<longrightarrow>
        parseCSV (l @ LF # rest) = parseCSV l @ parseCSV rest)
   \<and> (LF \<notin> set l \<longrightarrow> parseCSV l = (if trim l = [] then [] else [parse_line l]))
   \<and> scan row cur True (quote # quote # cs) = scan row (cur @ [quote]) True cs
   \<and> scan row cur False (comma # cs) = scan (row @ [trim cur]) [] False cs
   \<and> scan row cur True (comma # cs) = scan row (cur @ [comma]) True cs
   \<and> scan row cur q [] = row @ [trim cur]
   \<and> (\<forall>r \<in> set (parseCSV text). r \<noteq> [] \<and> (\<forall>c \<in> set r. trim c = c))
   \<and> parseCSV ''a,\"He said \"\"hi\"\"\",c'' = [[''a'', ''He said \"hi\"'', ''c'']]"
proof -
  have single: "parseCSV l = (if trim l = [] then [] else [parse_line l])" if "LF \<notin> set l" for l
    using that by (simp add: parseCSV_def split_lines_no_LF)
  have crlf: "parseCSV (l @ CR # LF # rest) = parseCSV l @ parseCSV rest" if "LF \<notin> set l"
    using that single [OF that] by (simp add: parseCSV_def split_lines_CRLF split_lines_no_LF)
  have lf: "parseCSV (l @ LF # rest) = parseCSV l @ parseCSV rest"
    if "LF \<notin> set l \<and> (l = [] \<or> last l \<noteq> CR)"
    using that by (simp add: parseCSV_def split_lines_LF split_lines_no_LF)
  have rows: "r \<noteq> [] \<and> (\<forall>c \<in> set r. trim c = c)" if "r \<in> set (parseCSV text)" for r
  proof -
    from that obtain ln where "r = parse_line ln"
      unfolding parseCSV_def using parse_lines_rows by blast
    then show ?thesis
      using scan_nonempty [of "[]" "[]" False ln] scan_cells [of "[]" "[]" False ln]
      by (simp add: parse_line_def)
  qed
  have example: "parseCSV ''a,\"He said \"\"hi\"\"\",c'' = [[''a'', ''He said \"hi\"'', ''c'']]"
    by (simp add: parseCSV_def parse_line_def trim_def isWhiteSpace_def quote_def comma_def
        LF_def CR_def)
  show ?thesis
    using single crlf lf rows example by simp
qed

theorem parseCSV_contract_witness:
  "LF \<notin> set ''sku,cost'' \<and> LF \<notin> set ''  '' \<and> last ''  '' \<noteq> CR
   \<and> parseCSV (''sku,cost'' @ CR # LF # ''  '' @ LF # '' A1 , \"1,5\" '')
       = [[''sku'', ''cost''], [''A1'', ''1,5'']]"
proof -
  have a: "LF \<notin> set ''sku,cost''" and b: "LF \<notin> set ''  ''" and c: "last ''  '' \<noteq> CR"
    and d: "LF \<notin> set '' A1 , \"1,5\" ''"
    by (simp_all add: LF_def CR_def)
  have "parseCSV (''sku,cost'' @ CR # LF # ''  '' @ LF # '' A1 , \"1,5\" '')
          = parseCSV ''sku,cost'' @ parseCSV (''  '' @ LF # '' A1 , \"1,5\" '')"
    using parseCSV_contract [of "''sku,cost''" "''  '' @ LF # '' A1 , \"1,5\" ''"] a by blast
  also have "parseCSV (''  '' @ LF # '' A1 , \"1,5\" '')
          = parseCSV ''  '' @ parseCSV '' A1 , \"1,5\" ''"
    using parseCSV_contract [of "''  ''" "'' A1 , \"1,5\" ''"] b c by blast
  also have "parseCSV ''  '' = []"
    using parseCSV_contract [of "''  ''"] b by (simp add: trim_def isWhiteSpace_def)
  also have "parseCSV '' A1 , \"1,5\" '' = [[''A1'', ''1,5'']]"
    using parseCSV_contract [of "'' A1 , \"1,5\" ''"] d
    by (simp add: parse_line_def trim_def isWhiteSpace_def quote_def comma_def)
  also have "parseCSV ''sku,cost'' = [[''sku'', ''cost'']]"
    using parseCSV_contract [of "''sku,cost''"] a
    by (simp add: parse_line_def trim_def isWhiteSpace_def quote_def comma_def)
  finally show ?thesis using a b c by simp
qed

subsection \<open>Parsing numbers\<close>

text \<open>
  \<^verbatim>\<open>parseFloat\<close> skips leading white space and reads the longest prefix that is a decimal
  literal: an optional sign, then \<^verbatim>\<open>Infinity\<close>, or digits with an optional fraction, or
  a fraction alone, each with an optional exponent; it yields \<^verbatim>\<open>NaN\<close> when there is no
  such prefix. \<^verbatim>\<open>parseInt(s, 10)\<close> skips leading white space and reads an optional sign
  and the longest run of digits, with \<^verbatim>\<open>NaN\<close> (here \<open>None\<close>) when there is no digit.
  Values are exact; a literal too large for a double is not turned into an infinity.
\<close>

definition isDigit :: "char \<Rightarrow> bool" where
  "isDigit c = (let n = (of_char c :: nat) in of_char (CHR ''0'') \<le> n \<and> n \<le> of_char (CHR ''9''))"

definition digit_value :: "char \<Rightarrow> nat" where
  "digit_value c = of_char c - of_char (CHR ''0'')"

definition digits_value :: "string \<Rightarrow> nat" where
  "digits_value ds = foldl (\<lambda>a d. 10 * a + digit_value d) 0 ds"

definition read_sign :: "string \<Rightarrow> bool \<times> string" where
  "read_sign s =
     (case s of
        [] \<Rightarrow> (False, [])
      | c # cs \<Rightarrow>
          if c = CHR ''-'' then (True, cs) else if c = CHR ''+'' then (False, cs) else (False, s))"

definition read_exponent :: "string \<Rightarrow> int" where
  "read_exponent s =
     (case s of
        [] \<Rightarrow> 0
      | c # cs \<Rightarrow>
          if c = CHR ''e'' \<or> c = CHR ''E'' then
            (let (neg, ds) = read_sign cs; e = takeWhile isDigit ds
             in if e = [] then 0
                else if neg then - int (digits_value e) else int (digits_value e))
          else 0)"

definition scale10 :: "real \<Rightarrow> int \<Rightarrow> real" where
  "scale10 m e = (if 0 \<le> e then m * 10 ^ nat e else m / 10 ^ nat (- e))"

definition parseFloat :: "string \<Rightarrow> number" where
  "parseFloat s =
     (let (neg, t) = read_sign (dropWhile isWhiteSpace s)
      in if take 8 t = ''Infinity'' then (if neg then NegInf else PosInf)
         else
           let ip = takeWhile isDigit t;
               t2 = dropWhile isDigit t;
               dot = (t2 \<noteq> [] \<and> hd t2 = CHR ''.'');
               fp = (if dot then takeWhile isDigit (tl t2) else []);
               t3 = (if dot then dropWhile isDigit (tl t2) else t2)
           in if ip = [] \<and> fp = [] then NaN
              else
                let m = real (digits_value (ip @ fp)) / 10 ^ length fp;
                    v = scale10 m (read_exponent t3)
                in Fin (if neg then - v else v))"

definition parseInt :: "string \<Rightarrow> int option" where
  "parseInt s =
     (let (neg, t) = read_sign (dropWhile isWhiteSpace s); ds = takeWhile isDigit t
      in if ds = [] then None
         else Some (if neg then - int (digits_value ds) else int (digits_value ds)))"

subsection \<open>Record extraction\<close>

text \<open>
  \<^verbatim>\<open>
  export function cleanCostValue(value: string): number {
    const cleaned = value.replace(/[^\d.-]/g, "");
    const parsed = parseFloat(cleaned);
    return isNaN(parsed) ? 0 : parsed;
  }
  \<close>
\<close>

definition cleanCostValue :: "string \<Rightarrow> number" where
  "cleanCostValue v =
     (let cleaned = filter (\<lambda>c. isDigit c \<or> c = CHR ''.'' \<or> c = CHR ''-'') v;
          parsed = parseFloat cleaned
      in if isNaN parsed then Fin 0 else parsed)"

text \<open>
  \<^verbatim>\<open>CSVProduct\<close>; the optional \<^verbatim>\<open>soh\<close> is \<open>None\<close> when the property is absent.
\<close>

record CSVProduct =
  csv_sku :: string
  csv_cost :: number
  csv_soh :: "int option"

text \<open>\<^verbatim>\<open>row[i]\<close>: \<^verbatim>\<open>undefined\<close> past the end of the row.\<close>

definition cell :: "string list \<Rightarrow> nat \<Rightarrow> string option" where
  "cell row i = (if i < length row then Some (row ! i) else None)"

text \<open>\<^verbatim>\<open>x || "0"\<close>: the default replaces \<^verbatim>\<open>undefined\<close> and the empty string.\<close>

definition or_zero :: "string option \<Rightarrow> string" where
  "or_zero x = (case x of None \<Rightarrow> ''0'' | Some s \<Rightarrow> if s = [] then ''0'' else s)"

text \<open>
  The body of the loop of \<^verbatim>\<open>extractProductsFromCSV\<close> for the rows from index 1 on:
  \<^verbatim>\<open>
  const row = csvData[i];
  if (!row || row.length === 0) continue;
  const sku = row[fields.sku.value]?.trim();
  if (!sku) continue;
  const cost = cleanCostValue(row[fields.cost.value] || "0");
  const product: CSVProduct = { sku, cost };
  if (fields.soh.value !== null && fields.soh.value !== "none") {
    const soh = parseInt(row[fields.soh.value] || "0", 10);
    product.soh = isNaN(soh) ? 0 : soh;
  }
  products.push(product);
  \<close>
\<close>

fun extract_rows :: "nat \<Rightarrow> nat \<Rightarrow> soh_value \<Rightarrow> string list list \<Rightarrow> CSVProduct list" where
  "extract_rows skuCol costCol soh [] = []"
| "extract_rows skuCol costCol soh (row # rows) =
     (if row = [] then extract_rows skuCol costCol soh rows
      else
        case map_option trim (cell row skuCol) of
          None \<Rightarrow> extract_rows skuCol costCol soh rows
        | Some s \<Rightarrow>
            if s = [] then extract_rows skuCol costCol soh rows
            else
              let c = cleanCostValue (or_zero (cell row costCol));
                  product = \<lparr>csv_sku = s, csv_cost = c, csv_soh = None\<rparr>;
                  product =
                    (case soh of
                       SohColumn k \<Rightarrow>
                         (let n = parseInt (or_zero (cell row k))
                          in product\<lparr>csv_soh := Some (case n of None \<Rightarrow> 0 | Some v \<Rightarrow> v)\<rparr>)
                     | _ \<Rightarrow> product)
              in product # extract_rows skuCol costCol soh rows)"

definition extractProductsFromCSV :: "string list list \<Rightarrow> CSVFieldMapping \<Rightarrow> CSVProduct list" where
  "extractProductsFromCSV csvData flds =
     (if length csvData < 2 then []
      else
        case (sku_value flds, cost_value flds) of
          (Some skuCol, Some costCol) \<Rightarrow>
            extract_rows skuCol costCol (soh_value flds) (drop 1 csvData)
        | _ \<Rightarrow> [])"

text \<open>
  The extraction as the specification words it, one data row at a time: the row is
  skipped when its identifier cell is missing or trims to the empty string; the cost is
  the cleaned cost cell, read as \<^verbatim>\<open>"0"\<close> when the row is too short; the stock on hand
  is attached, parsed as an integer with \<^verbatim>\<open>NaN\<close> as \<open>0\<close>, only when the stock column is
  an index.
\<close>

definition record_of_row_spec :: "nat \<Rightarrow> nat \<Rightarrow> soh_value \<Rightarrow> string list \<Rightarrow> CSVProduct option" where
  "record_of_row_spec skuCol costCol soh row =
     (if skuCol < length row \<and> trim (row ! skuCol) \<noteq> [] then
        Some \<lparr>csv_sku = trim (row ! skuCol),
              csv_cost = cleanCostValue (if costCol < length row then row ! costCol else ''0''),
              csv_soh =
                (case soh of
                   SohColumn k \<Rightarrow>
                     Some (case parseInt (if k < length row then row ! k else ''0'') of
                             None \<Rightarrow> 0 | Some v \<Rightarrow> v)
                 | _ \<Rightarrow> None)\<rparr>
      else None)"

lemma cleanCostValue_default: "cleanCostValue [] = cleanCostValue ''0''"
  by (simp add: cleanCostValue_def parseFloat_def read_sign_def isDigit_def digits_value_def
      digit_value_def read_exponent_def scale10_def isWhiteSpace_def Let_def)

lemma parseInt_default:
  "(case parseInt [] of None \<Rightarrow> 0 | Some v \<Rightarrow> v) = (case parseInt ''0'' of None \<Rightarrow> 0 | Some v \<Rightarrow> v)"
  by (simp add: parseInt_def read_sign_def isDigit_def digits_value_def digit_value_def
      isWhiteSpace_def Let_def)

lemma cost_cell_default:
  "cleanCostValue (or_zero (cell row j)) = cleanCostValue (if j < length row then row ! j else ''0'')"
  by (simp add: or_zero_def cell_def cleanCostValue_default)

lemma soh_cell_default:
  "(case parseInt (or_zero (cell row k)) of None \<Rightarrow> 0 | Some v \<Rightarrow> v)
   = (case parseInt (if k < length row then row ! k else ''0'') of None \<Rightarrow> 0 | Some v \<Rightarrow> v)"
  using parseInt_default by (simp add: or_zero_def cell_def)

lemma extract_row_step:
  "extract_rows i j soh (row # rows) =
     (case record_of_row_spec i j soh row of
        None \<Rightarrow> extract_rows i j soh rows
      | Some p \<Rightarrow> p # extract_rows i j soh rows)"
proof (cases "i < length row \<and> trim (row ! i) \<noteq> []")
  case False
  then show ?thesis
    by (auto simp: record_of_row_spec_def cell_def)
next
  case True
  then have ne: "row \<noteq> []" by auto
  show ?thesis
  proof (cases soh)
    case (SohColumn k)
    with True ne show ?thesis
      by (simp add: record_of_row_spec_def cell_def [of row i] cost_cell_default
          soh_cell_default Let_def)
  next
    case SohNull
    with True ne show ?thesis
      by (simp add: record_of_row_spec_def cell_def [of row i] cost_cell_default Let_def)
  next
    case SohNone
    with True ne show ?thesis
      by (simp add: record_of_row_spec_def cell_def [of row i] cost_cell_default Let_def)
  qed
qed

lemma extract_rows_spec:
  "extract_rows i j soh rows = List.map_filter (record_of_row_spec i j soh) rows"
proof (induction rows)
  case Nil
  then show ?case by (simp add: List.map_filter_simps)
next
  case (Cons row rows)
  then show ?case
    by (simp only: extract_row_step List.map_filter_simps split: option.split)
qed

lemma record_of_row_spec_no_soh:
  "soh = SohNone \<or> soh = SohNull \<Longrightarrow> record_of_row_spec i j soh row = Some p \<Longrightarrow> csv_soh p = None"
  by (auto simp: record_of_row_spec_def split: if_splits)

text \<open>
  C7. The extraction is empty when there are fewer than two rows or the identifier or
  the cost column is unset. Otherwise it is, in order, the records of the data rows from
  index 1 on, as worded by the specification: rows whose identifier cell trims to the
  empty string are skipped, the cost is the cleaned cost cell (\<^verbatim>\<open>"0"\<close> for a short
  row), where cleaning keeps digits, \<^verbatim>\<open>.\<close> and \<^verbatim>\<open>-\<close>, parses the rest and maps
  \<^verbatim>\<open>NaN\<close> to \<open>0\<close>, and the stock on hand is attached only for a stock column that is an
  index; with the stock column \<^verbatim>\<open>"none"\<close> or unset no record carries a stock on hand.
\<close>

theorem extractProductsFromCSV_contract:
  "(length csvData < 2 \<or> sku_value flds = None \<or> cost_value flds = None \<longrightarrow>
      extractProductsFromCSV csvData flds = [])
   \<and> (2 \<le> length csvData \<and> sku_value flds = Some i \<and> cost_value flds = Some j \<longrightarrow>
        extractProductsFromCSV csvData flds
          = List.map_filter (record_of_row_spec i j (soh_value flds)) (drop 1 csvData))
   \<and> (soh_value flds = SohNone \<or> soh_value flds = SohNull \<longrightarrow>
        (\<forall>p \<in> set (extractProductsFromCSV csvData flds). csv_soh p = None))
   \<and> (soh_value flds = SohColumn k \<longrightarrow>
        (\<forall>p \<in> set (extractProductsFromCSV csvData flds). csv_soh p \<noteq> None))
   \<and> cleanCostValue v =
        (let parsed = parseFloat (filter (\<lambda>c. isDigit c \<or> c = CHR ''.'' \<or> c = CHR ''-'') v)
         in if isNaN parsed then Fin 0 else parsed)"
proof -
  have empty: "length csvData < 2 \<or> sku_value flds = None \<or> cost_value flds = None \<longrightarrow>
      extractProductsFromCSV csvData flds = []"
    by (auto simp: extractProductsFromCSV_def split: option.splits)
  have rows: "2 \<le> length csvData \<and> sku_value flds = Some i \<and> cost_value flds = Some j \<longrightarrow>
      extractProductsFromCSV csvData flds
        = List.map_filter (record_of_row_spec i j (soh_value flds)) (drop 1 csvData)"
    by (simp add: extractProductsFromCSV_def extract_rows_spec)
  have members: "\<exists>i j row. record_of_row_spec i j (soh_value flds) row = Some p"
    if "p \<in> set (extractProductsFromCSV csvData flds)" for p
  proof -
    from that have "\<exists>i j rows. p \<in> set (extract_rows i j (soh_value flds) rows)"
      by (auto simp: extractProductsFromCSV_def split: if_splits option.splits)
    then show ?thesis
      unfolding extract_rows_spec by (auto simp: List.map_filter_def) blast
  qed
  have absent: "soh_value flds = SohNone \<or> soh_value flds = SohNull \<longrightarrow>
      (\<forall>p \<in> set (extractProductsFromCSV csvData flds). csv_soh p = None)"
    using members record_of_row_spec_no_soh by blast
  have present: "soh_value flds = SohColumn k \<longrightarrow>
      (\<forall>p \<in> set (extractProductsFromCSV csvData flds). csv_soh p \<noteq> None)"
  proof (intro impI ballI)
    fix p
    assume col: "soh_value flds = SohColumn k"
      and "p \<in> set (extractProductsFromCSV csvData flds)"
    from members [OF this(2)] obtain i j row
      where "record_of_row_spec i j (soh_value flds) row = Some p" by blast
    with col show "csv_soh p \<noteq> None"
      by (auto simp: record_of_row_spec_def split: if_splits)
  qed
  have clean: "cleanCostValue v =
      (let parsed = parseFloat (filter (\<lambda>c. isDigit c \<or> c = CHR ''.'' \<or> c = CHR ''-'') v)
       in if isNaN parsed then Fin 0 else parsed)"
    by (simp add: cleanCostValue_def)
  from empty rows absent present clean show ?thesis by blast
qed
theorem extractProductsFromCSV_contract_witness:
  "extractProductsFromCSV [[''sku'', ''cost'']]
       \<lparr>sku_value = Some 0, cost_value = Some 1, soh_value = SohNone\<rparr> = []
   \<and> extractProductsFromCSV [[''sku'', ''cost''], [''A1'', ''$12.50''], [''  '', ''3''], [''A2'']]
       \<lparr>sku_value = Some 0, cost_value = Some 1, soh_value = SohNone\<rparr>
     = [\<lparr>csv_sku = ''A1'', csv_cost = Fin 12.5, csv_soh = None\<rparr>,
        \<lparr>csv_sku = ''A2'', csv_cost = Fin 0, csv_soh = None\<rparr>]
   \<and> cleanCostValue ''abc'' = Fin 0"
proof -
  let ?flds = "\<lparr>sku_value = Some 0, cost_value = Some 1, soh_value = SohNone\<rparr>"
  let ?rows = "[[''sku'', ''cost''], [''A1'', ''$12.50''], [''  '', ''3''], [''A2'']]"
  have evals:
    "record_of_row_spec 0 (Suc 0) SohNone [''A1'', ''$12.50'']
       = Some \<lparr>csv_sku = ''A1'', csv_cost = Fin 12.5, csv_soh = None\<rparr>"
    "record_of_row_spec 0 (Suc 0) SohNone [''  '', ''3''] = None"
    "record_of_row_spec 0 (Suc 0) SohNone [''A2'']
       = Some \<lparr>csv_sku = ''A2'', csv_cost = Fin 0, csv_soh = None\<rparr>"
    by (simp_all add: record_of_row_spec_def trim_def isWhiteSpace_def cleanCostValue_def
        parseFloat_def read_sign_def isDigit_def digits_value_def digit_value_def
        read_exponent_def scale10_def Let_def)
  have "extractProductsFromCSV [[''sku'', ''cost'']] ?flds = []"
    using extractProductsFromCSV_contract [of "[[''sku'', ''cost'']]" ?flds] by simp
  moreover have "extractProductsFromCSV ?rows ?flds
      = List.map_filter (record_of_row_spec 0 1 SohNone) (drop 1 ?rows)"
    using extractProductsFromCSV_contract [of ?rows ?flds 0 1] by simp
  moreover have "cleanCostValue ''abc'' = Fin 0"
    using extractProductsFromCSV_contract [of "[]" ?flds 0 1 0 "''abc''"]
    by (simp add: isDigit_def parseFloat_def read_sign_def Let_def)
  ultimately show ?thesis
    by (simp add: evals)
qed

subsection \<open>The catalog gateway\<close>

text \<open>
  The route talks to the remote catalog through \<^verbatim>\<open>admin.graphql\<close> followed by
  \<^verbatim>\<open>response.json()\<close>. The gateway is a parameter of the model: one function for each
  of the four operations the route uses, over a gateway state \<open>'g\<close> of its own, so that
  the answer to a call may depend on everything sent before. A call either throws
  (\<open>Inl\<close>) or answers (\<open>Inr\<close>); an answer without \<^verbatim>\<open>data\<close> is \<open>None\<close>, and of an
  answer with \<^verbatim>\<open>data\<close> the model keeps what the route reads: the products of the
  lookup, the \<^verbatim>\<open>userErrors\<close> of a mutation.
\<close>

datatype thrown = ErrorObject string | OtherValue

text \<open>\<^verbatim>\<open>err instanceof Error ? err.message : "Unknown error"\<close>\<close>

definition error_text :: "thrown \<Rightarrow> string" where
  "error_text err = (case err of ErrorObject m \<Rightarrow> m | OtherValue \<Rightarrow> ''Unknown error'')"

record user_error =
  ue_field :: "string list option"
  ue_message :: string

text \<open>
  The variables of the mutations. The price of a variant input is the value of the
  decimal that \<^verbatim>\<open>toFixed(2)\<close> renders; the cost is absent in a price-only write.
\<close>

record variant_input =
  vi_id :: string
  vi_price :: real
  vi_cost :: "number option"

record inventory_change =
  ch_inventoryItemId :: string
  ch_locationId :: "string option"
  ch_delta :: int

record inventory_level =
  level_location :: "string option"
  level_quantities :: "(string \<times> int) list option"

record ShopifyVariant =
  v_id :: string
  v_sku :: "string option"
  v_price :: string
  v_inventoryItemId :: string
  v_unitCost :: "string option"
  v_inventoryLevel :: "inventory_level option"
  v_inventoryQuantity :: int

record ShopifyProduct =
  sp_id :: string
  sp_title :: string
  sp_imageUrl :: "string option"
  sp_variants :: "ShopifyVariant list"

type_synonym mutation_reply = "thrown + user_error list option"

record 'g admin =
  products_by_sku :: "'g \<Rightarrow> string \<Rightarrow> string \<Rightarrow> (thrown + ShopifyProduct list option) \<times> 'g"
  variants_bulk_update :: "'g \<Rightarrow> string \<Rightarrow> variant_input list \<Rightarrow> mutation_reply \<times> 'g"
  inventory_item_update :: "'g \<Rightarrow> string \<Rightarrow> number \<Rightarrow> mutation_reply \<times> 'g"
  inventory_adjust :: "'g \<Rightarrow> inventory_change list \<Rightarrow> mutation_reply \<times> 'g"

text \<open>The calls sent, in order, are logged next to the gateway state.\<close>

datatype call =
    ProductsBySku string string
  | VariantsBulkUpdate string "variant_input list"
  | InventoryItemUpdate string number
  | InventoryAdjustQuantities "inventory_change list"

record 'g world =
  gateway :: 'g
  calls :: "call list"

definition call_products ::
  "'g admin \<Rightarrow> 'g world \<Rightarrow> string \<Rightarrow> string \<Rightarrow> (thrown + ShopifyProduct list option) \<times> 'g world" where
  "call_products api w query loc =
     (let (reply, g) = products_by_sku api (gateway w) query loc
      in (reply, \<lparr>gateway = g, calls = calls w @ [ProductsBySku query loc]\<rparr>))"

definition call_bulk ::
  "'g admin \<Rightarrow> 'g world \<Rightarrow> string \<Rightarrow> variant_input list \<Rightarrow> mutation_reply \<times> 'g world" where
  "call_bulk api w pid inputs =
     (let (reply, g) = variants_bulk_update api (gateway w) pid inputs
      in (reply, \<lparr>gateway = g, calls = calls w @ [VariantsBulkUpdate pid inputs]\<rparr>))"

definition call_item ::
  "'g admin \<Rightarrow> 'g world \<Rightarrow> string \<Rightarrow> number \<Rightarrow> mutation_reply \<times> 'g world" where
  "call_item api w item c =
     (let (reply, g) = inventory_item_update api (gateway w) item c
      in (reply, \<lparr>gateway = g, calls = calls w @ [InventoryItemUpdate item c]\<rparr>))"

definition call_adjust ::
  "'g admin \<Rightarrow> 'g world \<Rightarrow> inventory_change list \<Rightarrow> mutation_reply \<times> 'g world" where
  "call_adjust api w changes =
     (let (reply, g) = inventory_adjust api (gateway w) changes
      in (reply, \<lparr>gateway = g, calls = calls w @ [InventoryAdjustQuantities changes]\<rparr>))"

text \<open>\<^verbatim>\<open>data.data?.<mutation>.userErrors || []\<close>\<close>

definition userErrors_of :: "user_error list option \<Rightarrow> user_error list" where
  "userErrors_of d = (case d of None \<Rightarrow> [] | Some errs \<Rightarrow> errs)"

subsection \<open>Outcomes\<close>

record UpdateResponse =
  r_sku :: string
  r_updated :: bool
  r_message :: string
  r_error :: "string option"

record action_result =
  results :: "UpdateResponse list"
  error :: "string option"

subsection \<open>Stock-only commit\<close>

text \<open>
  The inventory changes of the items to update, without those of delta zero:
  \<^verbatim>\<open>
  .map((p) => ({ inventoryItemId: p.inventoryItemId, locationId,
                 delta: p.quantityNew - p.quantity }))
  .filter((c) => c.delta !== 0)
  \<close>
\<close>

definition change_of :: "string option \<Rightarrow> NormalizedProduct \<Rightarrow> inventory_change" where
  "change_of locationId p =
     \<lparr>ch_inventoryItemId = inventoryItemId p, ch_locationId = locationId,
      ch_delta = quantityNew p - quantity p\<rparr>"

definition stock_changes :: "string option \<Rightarrow> NormalizedProduct list \<Rightarrow> inventory_change list" where
  "stock_changes locationId ps = filter (\<lambda>c. ch_delta c \<noteq> 0) (map (change_of locationId) ps)"

text \<open>
  The outcomes of one batch of changes, from the answer to its single call: for each
  change the first product with that inventory item is looked up, and reported failed
  with the first user error, or \<^verbatim>\<open>"Stock updated"\<close>; when the call threw, every change
  of the batch is reported as \<^verbatim>\<open>"API error"\<close>.
\<close>

definition stock_batch_results ::
  "NormalizedProduct list \<Rightarrow> inventory_change list \<Rightarrow> mutation_reply \<Rightarrow> UpdateResponse list" where
  "stock_batch_results products batch reply =
     List.map_filter (\<lambda>change.
       case find (\<lambda>p. inventoryItemId p = ch_inventoryItemId change) products of
         None \<Rightarrow> None
       | Some product \<Rightarrow>
           Some (case reply of
             Inr d \<Rightarrow>
               (let userErrors = userErrors_of d; hasError = (userErrors \<noteq> [])
                in \<lparr>r_sku = sku product, r_updated = \<not> hasError,
                     r_message = (if hasError then ue_message (hd userErrors) else ''Stock updated''),
                     r_error = (if hasError then Some (ue_message (hd userErrors)) else None)\<rparr>)
           | Inl err \<Rightarrow>
               \<lparr>r_sku = sku product, r_updated = False, r_message = ''API error'',
                r_error = Some (error_text err)\<rparr>)) batch"

fun stock_batches ::
  "'g admin \<Rightarrow> NormalizedProduct list \<Rightarrow> inventory_change list list \<Rightarrow>
   UpdateResponse list \<Rightarrow> 'g world \<Rightarrow> UpdateResponse list \<times> 'g world" where
  "stock_batches api products [] res w = (res, w)"
| "stock_batches api products (batch # batches) res w =
     (let (reply, w') = call_adjust api w batch
      in stock_batches api products batches (res @ stock_batch_results products batch reply) w')"

text \<open>
  The \<^verbatim>\<open>updateStock\<close> intent of the action. \<open>None\<close> stands for an action that never
  returns.
\<close>

definition updateStock ::
  "'g admin \<Rightarrow> 'g world \<Rightarrow> string option \<Rightarrow> NormalizedProduct list \<Rightarrow>
   (action_result \<times> 'g world) option" where
  "updateStock api w locationId products =
     (if products = [] then Some (\<lparr>results = [], error = Some ''No products to update''\<rparr>, w)
      else
        let changes = stock_changes locationId (filter update products)
        in if changes = [] then
             Some (\<lparr>results = map (\<lambda>p. \<lparr>r_sku = sku p, r_updated = False,
                                         r_message = ''No quantity change needed'',
                                         r_error = None\<rparr>) products,
                    error = None\<rparr>, w)
           else
             case chunkArray changes 100 of
               None \<Rightarrow> None
             | Some changeBatches \<Rightarrow>
                 (let (res, w') = stock_batches api products changeBatches [] w
                  in Some (\<lparr>results = res, error = None\<rparr>, w')))"

text \<open>A gateway without state that accepts every write, for the examples.\<close>

definition accepting :: "unit admin" where
  "accepting =
     \<lparr>products_by_sku = (\<lambda>g q l. (Inr (Some []), g)),
      variants_bulk_update = (\<lambda>g pid vs. (Inr (Some []), g)),
      inventory_item_update = (\<lambda>g i c. (Inr (Some []), g)),
      inventory_adjust = (\<lambda>g cs. (Inr (Some []), g))\<rparr>"

definition start :: "unit world" where
  "start = \<lparr>gateway = (), calls = []\<rparr>"

definition item :: "string \<Rightarrow> string \<Rightarrow> string \<Rightarrow> int \<Rightarrow> int \<Rightarrow> NormalizedProduct" where
  "item pid s suffix q qNew =
     \<lparr>productId = pid, variantId = ''v'' @ suffix, inventoryItemId = ''i'' @ suffix, sku = s,
      name = ''Item'', imageUrl = [], cost = Fin 8, price = Fin 15, quantity = q,
      costNew = Fin 10, quantityNew = qNew, margin = Fin 50, marginStatus = Good,
      update = True\<rparr>"

lemma stock_batches_calls:
  "calls (snd (stock_batches api ps bs res w)) = calls w @ map InventoryAdjustQuantities bs"
proof (induction bs arbitrary: res w)
  case Nil
  then show ?case by simp
next
  case (Cons b bs)
  show ?case
    by (simp add: call_adjust_def split_beta Let_def Cons.IH)
qed

lemma stock_changes_nonzero: "c \<in> set (stock_changes loc ps) \<Longrightarrow> ch_delta c \<noteq> 0"
  by (simp add: stock_changes_def)

text \<open>
  What the stock-only commit sends: the action always returns, and the changes it sends,
  batch after batch, are exactly those of the included items whose delta is not zero; when
  no included item has a delta other than zero nothing is sent and every submitted item
  is reported as needing no change.
\<close>

lemma updateStock_sends_nonzero_only:
  "\<exists>r w' bs. updateStock api w loc ps = Some (r, w')
      \<and> calls w' = calls w @ map InventoryAdjustQuantities bs
      \<and> concat bs = (if ps = [] then [] else stock_changes loc (filter update ps))
      \<and> (\<forall>b \<in> set bs. \<forall>c \<in> set b. ch_delta c \<noteq> 0)"
proof (cases "ps = [] \<or> stock_changes loc (filter update ps) = []")
  case True
  then have "\<exists>r. updateStock api w loc ps = Some (r, w)"
    by (cases "ps = []") (simp_all add: updateStock_def)
  then obtain r where r: "updateStock api w loc ps = Some (r, w)" ..
  have "concat ([] :: inventory_change list list)
          = (if ps = [] then [] else stock_changes loc (filter update ps))"
    using True by auto
  with r show ?thesis
    by (intro exI [of _ r] exI [of _ w] exI [of _ "[] :: inventory_change list list"]) simp
next
  case False
  let ?changes = "stock_changes loc (filter update ps)"
  let ?bs = "chunks_of 100 ?changes"
  obtain res w' where run: "stock_batches api ps ?bs [] w = (res, w')"
    by (cases "stock_batches api ps ?bs [] w")
  have "updateStock api w loc ps = Some (\<lparr>results = res, error = None\<rparr>, w')"
    using False run by (simp add: updateStock_def chunkArray_chunks_of)
  moreover have "calls w' = calls w @ map InventoryAdjustQuantities ?bs"
    using stock_batches_calls [of api ps ?bs "[]" w] run by simp
  moreover have "concat ?bs = ?changes"
    by (simp add: concat_chunks_of)
  moreover have "\<forall>b \<in> set ?bs. \<forall>c \<in> set b. ch_delta c \<noteq> 0"
  proof (intro ballI)
    fix b c
    assume "b \<in> set ?bs" and "c \<in> set b"
    then have "c \<in> set (concat ?bs)" by auto
    then show "ch_delta c \<noteq> 0"
      by (simp add: concat_chunks_of stock_changes_nonzero)
  qed
  ultimately show ?thesis
    using False
    by (intro exI [of _ "\<lparr>results = res, error = None\<rparr>"] exI [of _ w'] exI [of _ ?bs]) simp
qed

lemma updateStock_all_unchanged:
  assumes "ps \<noteq> []" and "\<forall>p \<in> set ps. update p \<longrightarrow> quantityNew p = quantity p"
  shows "updateStock api w loc ps =
           Some (\<lparr>results = map (\<lambda>p. \<lparr>r_sku = sku p, r_updated = False,
                                      r_message = ''No quantity change needed'',
                                      r_error = None\<rparr>) ps,
                  error = None\<rparr>, w)"
proof -
  have "stock_changes loc (filter update ps) = []"
    using assms(2) by (auto simp: stock_changes_def change_of_def filter_empty_conv)
  with assms(1) show ?thesis by (simp add: updateStock_def)
qed

text \<open>
  C4. A run with one unchanged item \<open>A\<close> and one changed item \<open>B\<close>: the change of \<open>A\<close>
  is not sent, but \<open>A\<close> is not reported either; the only outcome is that of \<open>B\<close>.
\<close>

theorem updateStock_mixed_run:
  "updateStock accepting start (Some ''loc'')
     [item ''p1'' ''A'' ''1'' 3 3, item ''p1'' ''B'' ''2'' 3 8]
   = Some (\<lparr>results = [\<lparr>r_sku = ''B'', r_updated = True, r_message = ''Stock updated'',
                          r_error = None\<rparr>],
            error = None\<rparr>,
           \<lparr>gateway = (),
            calls = [InventoryAdjustQuantities
                       [\<lparr>ch_inventoryItemId = ''i2'', ch_locationId = Some ''loc'',
                         ch_delta = 5\<rparr>]]\<rparr>)"
  by (simp add: updateStock_def stock_changes_def change_of_def item_def chunkArray_chunks_of
      chunks_of_step stock_batch_results_def call_adjust_def accepting_def start_def
      userErrors_of_def)

subsection \<open>Pricing commit\<close>

text \<open>
  \<^verbatim>\<open>groupProductsByParent\<close>: a \<^verbatim>\<open>Map\<close> keeps its keys in the order of their first
  insertion, so the groups are an association list in that order.
\<close>

fun set_group ::
  "string \<Rightarrow> NormalizedProduct list \<Rightarrow> (string \<times> NormalizedProduct list) list \<Rightarrow>
   (string \<times> NormalizedProduct list) list" where
  "set_group k v [] = [(k, v)]"
| "set_group k v ((k', v') # groups) =
     (if k' = k then (k, v) # groups else (k', v') # set_group k v groups)"

definition groupProductsByParent ::
  "NormalizedProduct list \<Rightarrow> (string \<times> NormalizedProduct list) list" where
  "groupProductsByParent products =
     foldl (\<lambda>groups product.
              let existing = (case map_of groups (productId product) of
                                None \<Rightarrow> [] | Some found \<Rightarrow> found)
              in set_group (productId product) (existing @ [product]) groups)
       [] products"

text \<open>
  The test for a cost-related error,
  \<^verbatim>\<open>/inventoryItem|cost|unitCost/i.test(error.message) || /.../i.test(field)\<close> with
  \<^verbatim>\<open>field = (error.field || []).join(".")\<close>: a search for one of the three words
  anywhere in the text, ignoring case.
\<close>

fun contains :: "string \<Rightarrow> string \<Rightarrow> bool" where
  "contains pat [] = (pat = [])"
| "contains pat (c # cs) = (take (length pat) (c # cs) = pat \<or> contains pat cs)"

definition cost_pattern :: "string \<Rightarrow> bool" where
  "cost_pattern s =
     (let l = toLowerCase s
      in contains ''inventoryitem'' l \<or> contains ''cost'' l \<or> contains ''unitcost'' l)"

fun join_dot :: "string list \<Rightarrow> string" where
  "join_dot [] = []"
| "join_dot [x] = x"
| "join_dot (x # y # ys) = x @ ''.'' @ join_dot (y # ys)"

definition hasCostError :: "user_error list \<Rightarrow> bool" where
  "hasCostError userErrors =
     list_ex (\<lambda>e. let field = join_dot (case ue_field e of None \<Rightarrow> [] | Some f \<Rightarrow> f)
                  in cost_pattern (ue_message e) \<or> cost_pattern field) userErrors"

text \<open>
  \<^verbatim>\<open>v.price.toFixed(2)\<close>. The items reach the action as JSON, in which a number that
  is \<^verbatim>\<open>NaN\<close> or infinite has been written as \<^verbatim>\<open>null\<close>, and reading \<^verbatim>\<open>toFixed\<close> of
  \<^verbatim>\<open>null\<close> throws a \<^verbatim>\<open>TypeError\<close> (the text is that of V8). For a finite price the
  result is the decimal with two places that is nearest to it, the larger in magnitude
  of two equally near ones; from \<open>10\<^sup>2\<^sup>1\<close> on the number is rendered as it is.
\<close>

definition null_toFixed :: thrown where
  "null_toFixed =
     ErrorObject (''Cannot read properties of null (reading '' @ [CHR 0x27] @ ''toFixed''
                  @ [CHR 0x27] @ '')'')"

definition toFixed2 :: "number \<Rightarrow> thrown + real" where
  "toFixed2 n =
     (case n of
        Fin x \<Rightarrow> Inr (if 10 ^ 21 \<le> \<bar>x\<bar> then x
                       else sgn x * real_of_int \<lfloor>\<bar>x\<bar> * 100 + 1 / 2\<rfloor> / 100)
      | _ \<Rightarrow> Inl null_toFixed)"

text \<open>
  \<^verbatim>\<open>variantBatch.map((v) => ...)\<close> with a callback that may throw: the first exception
  leaves the \<^verbatim>\<open>map\<close>.
\<close>

fun map_throwing :: "('a \<Rightarrow> thrown + 'b) \<Rightarrow> 'a list \<Rightarrow> thrown + 'b list" where
  "map_throwing f [] = Inr []"
| "map_throwing f (x # xs) =
     (case f x of
        Inl err \<Rightarrow> Inl err
      | Inr y \<Rightarrow> (case map_throwing f xs of Inl err \<Rightarrow> Inl err | Inr ys \<Rightarrow> Inr (y # ys)))"

text \<open>
  \<^verbatim>\<open>{ id: v.variantId, price: v.price.toFixed(2), inventoryItem: { cost: v.costNew } }\<close>
  and \<^verbatim>\<open>{ id: v.variantId, price: v.price.toFixed(2) }\<close>
\<close>

definition combined_input :: "NormalizedProduct \<Rightarrow> thrown + variant_input" where
  "combined_input v =
     (case toFixed2 (price v) of
        Inl err \<Rightarrow> Inl err
      | Inr p \<Rightarrow> Inr \<lparr>vi_id = variantId v, vi_price = p, vi_cost = Some (costNew v)\<rparr>)"

definition price_input :: "NormalizedProduct \<Rightarrow> thrown + variant_input" where
  "price_input v =
     (case toFixed2 (price v) of
        Inl err \<Rightarrow> Inl err
      | Inr p \<Rightarrow> Inr \<lparr>vi_id = variantId v, vi_price = p, vi_cost = None\<rparr>)"

text \<open>
  \<^verbatim>\<open>hasPriceData ? priceErrors : [{ message: "Price update failed" }]\<close>
\<close>

definition effectivePriceErrors :: "user_error list option \<Rightarrow> user_error list" where
  "effectivePriceErrors priceData =
     (case priceData of
        Some priceErrors \<Rightarrow> priceErrors
      | None \<Rightarrow> [\<lparr>ue_field = None, ue_message = ''Price update failed''\<rparr>])"

text \<open>
  What one standalone cost write adds to \<^verbatim>\<open>costErrors\<close>: the text of the exception,
  \<^verbatim>\<open>"Cost update failed"\<close> for an answer without payload, the first user error, or
  nothing.
\<close>

definition cost_failure :: "mutation_reply \<Rightarrow> string option" where
  "cost_failure reply =
     (case reply of
        Inl err \<Rightarrow> Some (error_text err)
      | Inr None \<Rightarrow> Some ''Cost update failed''
      | Inr (Some errs) \<Rightarrow> if errs \<noteq> [] then Some (ue_message (hd errs)) else None)"

fun cost_writes ::
  "'g admin \<Rightarrow> NormalizedProduct list \<Rightarrow> (string \<rightharpoonup> string) \<Rightarrow> 'g world \<Rightarrow>
   (string \<rightharpoonup> string) \<times> 'g world" where
  "cost_writes api [] costErrors w = (costErrors, w)"
| "cost_writes api (variant # rest) costErrors w =
     (let (reply, w') = call_item api w (inventoryItemId variant) (costNew variant)
      in cost_writes api rest
           (case cost_failure reply of
              None \<Rightarrow> costErrors
            | Some m \<Rightarrow> costErrors(sku variant \<mapsto> m))
           w')"

text \<open>\<^verbatim>\<open>Boolean(costError)\<close>: neither \<^verbatim>\<open>undefined\<close> nor the empty string.\<close>

definition truthy :: "string option \<Rightarrow> bool" where
  "truthy x = (case x of None \<Rightarrow> False | Some s \<Rightarrow> s \<noteq> [])"

definition fallback_outcome ::
  "user_error list \<Rightarrow> (string \<rightharpoonup> string) \<Rightarrow> NormalizedProduct \<Rightarrow> UpdateResponse" where
  "fallback_outcome priceErrors costErrors variant =
     (let hasPriceError = (priceErrors \<noteq> []);
          costError = costErrors (sku variant);
          hasError = (hasPriceError \<or> truthy costError);
          message = (if hasError
                     then (if truthy costError then the costError
                           else ue_message (hd priceErrors))
                     else ''Pricing updated'')
      in \<lparr>r_sku = sku variant, r_updated = \<not> hasError, r_message = message,
           r_error = (if hasError then Some message else None)\<rparr>)"

definition plain_outcome :: "user_error list \<Rightarrow> NormalizedProduct \<Rightarrow> UpdateResponse" where
  "plain_outcome userErrors variant =
     (let hasError = (userErrors \<noteq> [])
      in \<lparr>r_sku = sku variant, r_updated = \<not> hasError,
           r_message = (if hasError then ue_message (hd userErrors) else ''Pricing updated''),
           r_error = (if hasError then Some (ue_message (hd userErrors)) else None)\<rparr>)"

text \<open>
  One sub-batch of the variants of a product: the body of
  \<^verbatim>\<open>for (const variantBatch of variantBatches)\<close>. \<open>Inl\<close> is an exception that leaves
  the body: from building the variant inputs, before anything is sent, from the combined
  call or from the price-only call; the exceptions of the cost writes are caught one by
  one.
\<close>

definition variant_batch ::
  "'g admin \<Rightarrow> string \<Rightarrow> NormalizedProduct list \<Rightarrow> 'g world \<Rightarrow>
   (thrown + UpdateResponse list) \<times> 'g world" where
  "variant_batch api pid variantBatch w =
     (case map_throwing combined_input variantBatch of
        Inl err \<Rightarrow> (Inl err, w)
      | Inr variantInputs \<Rightarrow>
          (let (reply, w1) = call_bulk api w pid variantInputs
           in case reply of
                Inl err \<Rightarrow> (Inl err, w1)
              | Inr d \<Rightarrow>
                  (let userErrors = userErrors_of d
                   in if userErrors \<noteq> [] \<and> hasCostError userErrors then
                        (case map_throwing price_input variantBatch of
                           Inl err \<Rightarrow> (Inl err, w1)
                         | Inr priceInputs \<Rightarrow>
                             (let (priceReply, w2) = call_bulk api w1 pid priceInputs
                              in case priceReply of
                                   Inl err \<Rightarrow> (Inl err, w2)
                                 | Inr priceData \<Rightarrow>
                                     (let (costErrors, w3) =
                                            cost_writes api variantBatch Map.empty w2
                                      in (Inr (map (fallback_outcome
                                                      (effectivePriceErrors priceData)
                                                      costErrors) variantBatch), w3))))
                      else (Inr (map (plain_outcome userErrors) variantBatch), w1))))"

fun variant_batches ::
  "'g admin \<Rightarrow> string \<Rightarrow> NormalizedProduct list list \<Rightarrow> UpdateResponse list \<Rightarrow> 'g world \<Rightarrow>
   (thrown option \<times> UpdateResponse list) \<times> 'g world" where
  "variant_batches api pid [] res w = ((None, res), w)"
| "variant_batches api pid (variantBatch # rest) res w =
     (case variant_batch api pid variantBatch w of
        (Inl err, w') \<Rightarrow> ((Some err, res), w')
      | (Inr out, w') \<Rightarrow> variant_batches api pid rest (res @ out) w')"

text \<open>
  One parent product: the \<^verbatim>\<open>try\<close> around its sub-batches, and the \<^verbatim>\<open>catch\<close> that
  reports every variant of the product as \<^verbatim>\<open>"API error"\<close>, after whatever the
  sub-batches before the exception have pushed.
\<close>

definition product_group ::
  "'g admin \<Rightarrow> string \<Rightarrow> NormalizedProduct list \<Rightarrow> UpdateResponse list \<Rightarrow> 'g world \<Rightarrow>
   (UpdateResponse list \<times> 'g world) option" where
  "product_group api pid variants res w =
     (case chunkArray variants 100 of
        None \<Rightarrow> None
      | Some variantBatches \<Rightarrow>
          (case variant_batches api pid variantBatches res w of
             ((None, res'), w') \<Rightarrow> Some (res', w')
           | ((Some err, res'), w') \<Rightarrow>
               Some (res' @ map (\<lambda>variant. \<lparr>r_sku = sku variant, r_updated = False,
                                              r_message = ''API error'',
                                              r_error = Some (error_text err)\<rparr>) variants,
                     w')))"

fun product_groups ::
  "'g admin \<Rightarrow> (string \<times> NormalizedProduct list) list \<Rightarrow> UpdateResponse list \<Rightarrow> 'g world \<Rightarrow>
   (UpdateResponse list \<times> 'g world) option" where
  "product_groups api [] res w = Some (res, w)"
| "product_groups api ((pid, variants) # grouped) res w =
     (case product_group api pid variants res w of
        None \<Rightarrow> None
      | Some (res', w') \<Rightarrow> product_groups api grouped res' w')"

text \<open>
  The stock pass of a combined run. It rewrites, for each change of an accepted or
  rejected batch, the first outcome that carries the SKU of the first item with the
  change's inventory item; an exception is only logged.
\<close>

fun mark_first ::
  "('a \<Rightarrow> bool) \<Rightarrow> ('a \<Rightarrow> 'a) \<Rightarrow> 'a list \<Rightarrow> 'a list" where
  "mark_first P f [] = []"
| "mark_first P f (x # xs) = (if P x then f x # xs else x # mark_first P f xs)"

definition pricing_stock_batch ::
  "NormalizedProduct list \<Rightarrow> inventory_change list \<Rightarrow> mutation_reply \<Rightarrow>
   UpdateResponse list \<Rightarrow> UpdateResponse list" where
  "pricing_stock_batch productsToUpdate batch reply res =
     (case reply of
        Inl err \<Rightarrow> res
      | Inr d \<Rightarrow>
          (let userErrors = userErrors_of d; hasError = (userErrors \<noteq> [])
           in foldl (\<lambda>acc change.
                case find (\<lambda>p. inventoryItemId p = ch_inventoryItemId change) productsToUpdate of
                  None \<Rightarrow> acc
                | Some p \<Rightarrow>
                    mark_first (\<lambda>r. r_sku r = sku p)
                      (\<lambda>r. r\<lparr>r_updated := \<not> hasError,
                              r_message := (if hasError then ue_message (hd userErrors)
                                            else ''Stock updated''),
                              r_error := (if hasError then Some (ue_message (hd userErrors))
                                          else None)\<rparr>) acc)
                res batch))"

fun pricing_stock_batches ::
  "'g admin \<Rightarrow> NormalizedProduct list \<Rightarrow> inventory_change list list \<Rightarrow> UpdateResponse list \<Rightarrow>
   'g world \<Rightarrow> UpdateResponse list \<times> 'g world" where
  "pricing_stock_batches api productsToUpdate [] res w = (res, w)"
| "pricing_stock_batches api productsToUpdate (batch # batches) res w =
     (let (reply, w') = call_adjust api w batch
      in pricing_stock_batches api productsToUpdate batches
           (pricing_stock_batch productsToUpdate batch reply res) w')"

text \<open>The \<^verbatim>\<open>updatePricing\<close> intent of the action.\<close>

definition updatePricing ::
  "'g admin \<Rightarrow> 'g world \<Rightarrow> string option \<Rightarrow> bool \<Rightarrow> NormalizedProduct list \<Rightarrow>
   (action_result \<times> 'g world) option" where
  "updatePricing api w locationId updateStockToo products =
     (if products = [] then Some (\<lparr>results = [], error = Some ''No products to update''\<rparr>, w)
      else
        let productsToUpdate = filter update products;
            grouped = groupProductsByParent productsToUpdate
        in case product_groups api grouped [] w of
             None \<Rightarrow> None
           | Some (res, w1) \<Rightarrow>
               if updateStockToo \<and> stock_changes locationId productsToUpdate \<noteq> [] then
                 (case chunkArray (stock_changes locationId productsToUpdate) 100 of
                    None \<Rightarrow> None
                  | Some changeBatches \<Rightarrow>
                      (let (res2, w2) =
                             pricing_stock_batches api productsToUpdate changeBatches res w1
                       in Some (\<lparr>results = res2, error = None\<rparr>, w2)))
               else Some (\<lparr>results = res, error = None\<rparr>, w1))"













text \<open>
  A price that is not a finite number: the exception leaves the sub-batch before anything
  is sent.
\<close>

lemma map_throwing_null_price:
  "\<exists>v \<in> set batch. \<forall>x. price v \<noteq> Fin x \<Longrightarrow>
   map_throwing combined_input batch = Inl null_toFixed"
proof (induction batch)
  case Nil
  then show ?case by simp
next
  case (Cons v vs)
  show ?case
  proof (cases "price v")
    case (Fin x)
    with Cons.prems have "\<exists>v \<in> set vs. \<forall>x. price v \<noteq> Fin x" by auto
    from Cons.IH [OF this] show ?thesis
      by (simp add: combined_input_def toFixed2_def Fin)
  qed (simp_all add: combined_input_def toFixed2_def)
qed

lemma variant_batch_null_price:
  "\<exists>v \<in> set batch. \<forall>x. price v \<noteq> Fin x \<Longrightarrow>
   variant_batch api pid batch w = (Inl null_toFixed, w)"
  by (simp add: variant_batch_def map_throwing_null_price)

text \<open>
  So a product with such a price is reported as \<^verbatim>\<open>"API error"\<close>, and nothing is sent
  for it.
\<close>

lemma updatePricing_null_price:
  "updatePricing accepting start (Some ''loc'') False
     [(item ''p1'' ''A'' ''1'' 3 3)\<lparr>price := NaN\<rparr>]
   = Some (\<lparr>results = [\<lparr>r_sku = ''A'', r_updated = False, r_message = ''API error'',
                          r_error = Some (error_text null_toFixed)\<rparr>],
            error = None\<rparr>, start)"
  by (simp add: updatePricing_def groupProductsByParent_def item_def product_group_def
      chunkArray_chunks_of chunks_of_step variant_batch_null_price)










subsection \<open>Catalog lookup and matching\<close>

text \<open>
  \<^verbatim>\<open>buildSkuQuery\<close>: the trimmed, non-empty SKUs, each quoted with backslashes and
  double quotes escaped, joined by \<^verbatim>\<open>" OR "\<close>.
\<close>

definition backslash :: char where "backslash = CHR 0x5C"

definition replace_char :: "char \<Rightarrow> string \<Rightarrow> string \<Rightarrow> string" where
  "replace_char c rep s = concat (map (\<lambda>x. if x = c then rep else [x]) s)"

definition escapeQueryValue :: "string \<Rightarrow> string" where
  "escapeQueryValue v =
     replace_char quote [backslash, quote] (replace_char backslash [backslash, backslash] v)"

fun join_with :: "string \<Rightarrow> string list \<Rightarrow> string" where
  "join_with sep [] = []"
| "join_with sep [x] = x"
| "join_with sep (x # y # ys) = x @ sep @ join_with sep (y # ys)"

definition buildSkuQuery :: "string list \<Rightarrow> string" where
  "buildSkuQuery skus =
     join_with '' OR ''
       (map (\<lambda>s. ''sku:'' @ [quote] @ escapeQueryValue s @ [quote])
          (filter (\<lambda>s. s \<noteq> []) (map trim skus)))"

text \<open>
  \<^verbatim>\<open>inventoryLevel?.quantities?.find((qty) => qty.name === "available")?.quantity\<close>
\<close>

definition available_quantity :: "inventory_level option \<Rightarrow> int option" where
  "available_quantity level =
     (case level of
        None \<Rightarrow> None
      | Some l \<Rightarrow>
          (case level_quantities l of
             None \<Rightarrow> None
           | Some qs \<Rightarrow> map_option snd (find (\<lambda>q. fst q = ''available'') qs)))"

text \<open>\<^verbatim>\<open>parseFloat(variant.price) || 0\<close>: \<^verbatim>\<open>NaN\<close> and zero give \<open>0\<close>.\<close>

definition or_0 :: "number \<Rightarrow> number" where
  "or_0 n = (if isNaN n \<or> n = Fin 0 then Fin 0 else n)"

text \<open>
  \<^verbatim>\<open>normalizeShopifyProduct\<close>. The location is \<open>None\<close> for \<^verbatim>\<open>null\<close>; it counts only
  when it is a non-empty string.
\<close>

definition normalizeShopifyProduct ::
  "ShopifyProduct \<Rightarrow> CSVProduct \<Rightarrow> number \<Rightarrow> string option \<Rightarrow> NormalizedProduct option" where
  "normalizeShopifyProduct shopifyProduct csvProduct marginThreshold locationId =
     (case find (\<lambda>v. map_option toLowerCase (v_sku v) = Some (toLowerCase (csv_sku csvProduct)))
             (sp_variants shopifyProduct) of
        None \<Rightarrow> None
      | Some variant \<Rightarrow>
          (let currentCost = (case v_unitCost variant of
                                Some amount \<Rightarrow> parseFloat amount | None \<Rightarrow> Fin 0);
               currentPrice = or_0 (parseFloat (v_price variant));
               newCost = csv_cost csvProduct;
               locationAvailable =
                 (if truthy locationId then
                    (if (case v_inventoryLevel variant of
                           None \<Rightarrow> None | Some l \<Rightarrow> level_location l) = locationId
                     then available_quantity (v_inventoryLevel variant)
                     else None)
                  else available_quantity (v_inventoryLevel variant));
               currentQuantity = (case locationAvailable of
                                    Some q \<Rightarrow> q | None \<Rightarrow> v_inventoryQuantity variant);
               newQuantity = (case csv_soh csvProduct of
                                Some q \<Rightarrow> q | None \<Rightarrow> currentQuantity);
               m = calculateMargin currentPrice newCost
           in Some \<lparr>productId = sp_id shopifyProduct, variantId = v_id variant,
                    inventoryItemId = v_inventoryItemId variant,
                    sku = (case v_sku variant of Some s \<Rightarrow> s | None \<Rightarrow> []),
                    name = sp_title shopifyProduct,
                    imageUrl = (case sp_imageUrl shopifyProduct of
                                  Some url \<Rightarrow> url | None \<Rightarrow> []),
                    cost = currentCost, price = currentPrice, quantity = currentQuantity,
                    costNew = newCost, quantityNew = newQuantity,
                    margin = m, marginStatus = getMarginStatus m marginThreshold,
                    update = True\<rparr>))"

text \<open>
  The body of the loop over the variants of a returned product: the first CSV product
  with the variant's SKU, ignoring case, is normalised against the product, pushed, and
  its SKU in lower case added to the set of found SKUs.
\<close>

definition match_variant ::
  "CSVProduct list \<Rightarrow> number \<Rightarrow> string option \<Rightarrow> ShopifyProduct \<Rightarrow>
   NormalizedProduct list \<times> string list \<Rightarrow> ShopifyVariant \<Rightarrow>
   NormalizedProduct list \<times> string list" where
  "match_variant csvProducts marginThreshold locationId shopifyProduct acc variant =
     (case find (\<lambda>p. Some (toLowerCase (csv_sku p)) = map_option toLowerCase (v_sku variant))
             csvProducts of
        None \<Rightarrow> acc
      | Some csvProduct \<Rightarrow>
          (case normalizeShopifyProduct shopifyProduct csvProduct marginThreshold locationId of
             None \<Rightarrow> acc
           | Some normalized \<Rightarrow>
               (fst acc @ [normalized],
                List.insert (toLowerCase (csv_sku csvProduct)) (snd acc))))"

definition match_products ::
  "CSVProduct list \<Rightarrow> number \<Rightarrow> string option \<Rightarrow> ShopifyProduct list \<Rightarrow>
   NormalizedProduct list \<times> string list \<Rightarrow> NormalizedProduct list \<times> string list" where
  "match_products csvProducts marginThreshold locationId shopifyProducts acc =
     foldl (\<lambda>acc1 shopifyProduct.
              foldl (match_variant csvProducts marginThreshold locationId shopifyProduct)
                acc1 (sp_variants shopifyProduct))
       acc shopifyProducts"

fun lookup_batches ::
  "'g admin \<Rightarrow> CSVProduct list \<Rightarrow> number \<Rightarrow> string option \<Rightarrow> string list list \<Rightarrow>
   NormalizedProduct list \<times> string list \<Rightarrow> 'g world \<Rightarrow>
   (thrown + NormalizedProduct list \<times> string list) \<times> 'g world" where
  "lookup_batches api csvProducts marginThreshold locationId [] acc w = (Inr acc, w)"
| "lookup_batches api csvProducts marginThreshold locationId (skuBatch # rest) acc w =
     (let query = buildSkuQuery skuBatch
      in if query = [] then lookup_batches api csvProducts marginThreshold locationId rest acc w
         else
           let (reply, w') = call_products api w query
                               (case locationId of None \<Rightarrow> [] | Some l \<Rightarrow> l)
           in case reply of
                Inl err \<Rightarrow> (Inl err, w')
              | Inr d \<Rightarrow>
                  lookup_batches api csvProducts marginThreshold locationId rest
                    (match_products csvProducts marginThreshold locationId
                       (case d of None \<Rightarrow> [] | Some nodes \<Rightarrow> nodes) acc)
                    w')"

record lookup_result =
  l_products :: "NormalizedProduct list"
  l_notFound :: "string list"
  l_error :: "string option"

text \<open>
  The \<^verbatim>\<open>lookupProducts\<close> intent of the action: \<open>Inl\<close> when a lookup call throws, which
  the action does not catch.
\<close>

definition lookupProducts ::
  "'g admin \<Rightarrow> 'g world \<Rightarrow> string option \<Rightarrow> number \<Rightarrow> CSVProduct list \<Rightarrow>
   ((thrown + lookup_result) \<times> 'g world) option" where
  "lookupProducts api w locationId marginThreshold csvProducts =
     (if csvProducts = [] then
        Some (Inr \<lparr>l_products = [], l_notFound = [],
                   l_error = Some ''No products to look up''\<rparr>, w)
      else
        case chunkArray (map csv_sku csvProducts) 50 of
          None \<Rightarrow> None
        | Some skuBatches \<Rightarrow>
            (case lookup_batches api csvProducts marginThreshold locationId skuBatches ([], []) w of
               (Inl err, w') \<Rightarrow> Some (Inl err, w')
             | (Inr (allProducts, foundSkus), w') \<Rightarrow>
                 Some (Inr \<lparr>l_products = allProducts,
                            l_notFound =
                              map csv_sku
                                (filter (\<lambda>p. toLowerCase (csv_sku p) \<notin> set foundSkus)
                                   csvProducts),
                            l_error = None\<rparr>, w')))"

text \<open>
  A catalog for the examples: one product with the variant \<^verbatim>\<open>ABC-1\<close>, priced 15 at a
  unit cost of 8, returned for every query.
\<close>

definition catalog :: "unit admin" where
  "catalog =
     \<lparr>products_by_sku = (\<lambda>g q l.
        (Inr (Some [\<lparr>sp_id = ''p1'', sp_title = ''Widget'', sp_imageUrl = None,
                      sp_variants =
                        [\<lparr>v_id = ''v1'', v_sku = Some ''ABC-1'', v_price = ''15.00'',
                          v_inventoryItemId = ''i1'', v_unitCost = Some ''8.00'',
                          v_inventoryLevel = None, v_inventoryQuantity = 4\<rparr>]\<rparr>]), g)),
      variants_bulk_update = (\<lambda>g pid vs. (Inr (Some []), g)),
      inventory_item_update = (\<lambda>g i c. (Inr (Some []), g)),
      inventory_adjust = (\<lambda>g cs. (Inr (Some []), g))\<rparr>"

text \<open>
  A second catalog for the examples: one product of which two variants carry the same
  SKU.
\<close>

definition twin_catalog :: "unit admin" where
  "twin_catalog =
     \<lparr>products_by_sku = (\<lambda>g q l.
        (Inr (Some [\<lparr>sp_id = ''p1'', sp_title = ''Item'', sp_imageUrl = None,
                      sp_variants =
                        [\<lparr>v_id = ''v1'', v_sku = Some ''A'', v_price = ''15.00'',
                          v_inventoryItemId = ''i1'', v_unitCost = Some ''8.00'',
                          v_inventoryLevel = None, v_inventoryQuantity = 3\<rparr>,
                         \<lparr>v_id = ''v2'', v_sku = Some ''A'', v_price = ''15.00'',
                          v_inventoryItemId = ''i2'', v_unitCost = Some ''8.00'',
                          v_inventoryLevel = None, v_inventoryQuantity = 3\<rparr>]\<rparr>]), g)),
      variants_bulk_update = (\<lambda>g pid vs. (Inr (Some []), g)),
      inventory_item_update = (\<lambda>g i c. (Inr (Some []), g)),
      inventory_adjust = (\<lambda>g cs. (Inr (Some []), g))\<rparr>"

text \<open>
  The invariant of the matching loops: the found SKUs are the SKUs of the matched items
  in lower case, and each is the lower case of a SKU of the input.
\<close>

definition found_inv :: "CSVProduct list \<Rightarrow> NormalizedProduct list \<times> string list \<Rightarrow> bool" where
  "found_inv csvProducts acc =
     (set (snd acc) = (\<lambda>p. toLowerCase (sku p)) ` set (fst acc)
      \<and> set (snd acc) \<subseteq> (\<lambda>p. toLowerCase (csv_sku p)) ` set csvProducts)"

lemma find_SomeD: "find P xs = Some x \<Longrightarrow> P x \<and> x \<in> set xs"
  by (induction xs) (auto split: if_splits)

lemma normalize_sku:
  assumes "normalizeShopifyProduct sp c t loc = Some n"
  shows "toLowerCase (sku n) = toLowerCase (csv_sku c)"
proof -
  from assms obtain v where
    found: "find (\<lambda>v. map_option toLowerCase (v_sku v) = Some (toLowerCase (csv_sku c)))
              (sp_variants sp) = Some v"
    by (auto simp: normalizeShopifyProduct_def split: option.splits)
  from find_SomeD [OF found] obtain s where s: "v_sku v = Some s"
    and low: "toLowerCase s = toLowerCase (csv_sku c)"
    by auto
  from assms found s have "sku n = s"
    by (auto simp: normalizeShopifyProduct_def Let_def)
  with low show ?thesis by simp
qed

lemma match_variant_inv:
  assumes "found_inv csv acc"
  shows "found_inv csv (match_variant csv t loc sp acc v)"
proof (cases "find (\<lambda>p. Some (toLowerCase (csv_sku p)) = map_option toLowerCase (v_sku v)) csv")
  case None
  with assms show ?thesis by (simp add: match_variant_def)
next
  case (Some c)
  then have mem: "c \<in> set csv" using find_SomeD by fastforce
  show ?thesis
  proof (cases "normalizeShopifyProduct sp c t loc")
    case None
    with Some assms show ?thesis by (simp add: match_variant_def)
  next
    case (Some n)
    from normalize_sku [OF this] have "toLowerCase (sku n) = toLowerCase (csv_sku c)" .
    with Some \<open>find _ csv = Some c\<close> mem assms show ?thesis
      by (auto simp: match_variant_def found_inv_def)
  qed
qed

lemma match_variants_inv:
  "found_inv csv acc \<Longrightarrow> found_inv csv (foldl (match_variant csv t loc sp) acc vs)"
  by (induction vs arbitrary: acc) (simp_all add: match_variant_inv)

lemma match_products_inv:
  "found_inv csv acc \<Longrightarrow> found_inv csv (match_products csv t loc sps acc)"
  unfolding match_products_def
  by (induction sps arbitrary: acc) (simp_all add: match_variants_inv)

lemma lookup_batches_inv:
  "found_inv csv acc \<Longrightarrow> lookup_batches api csv t loc batches acc w = (Inr acc', w') \<Longrightarrow>
   found_inv csv acc'"
proof (induction batches arbitrary: acc w)
  case Nil
  then show ?case by simp
next
  case (Cons b batches)
  show ?case
  proof (cases "buildSkuQuery b = []")
    case True
    with Cons show ?thesis by simp
  next
    case False
    obtain reply w1 where call:
      "call_products api w (buildSkuQuery b) (case loc of None \<Rightarrow> [] | Some l \<Rightarrow> l) = (reply, w1)"
      by (cases "call_products api w (buildSkuQuery b) (case loc of None \<Rightarrow> [] | Some l \<Rightarrow> l)")
    show ?thesis
    proof (cases reply)
      case (Inl err)
      with Cons.prems(2) False call show ?thesis by simp
    next
      case (Inr d)
      let ?acc1 = "match_products csv t loc (case d of None \<Rightarrow> [] | Some nodes \<Rightarrow> nodes) acc"
      from Cons.prems(2) False call Inr
      have "lookup_batches api csv t loc batches ?acc1 w1 = (Inr acc', w')"
        by simp
      moreover have "found_inv csv ?acc1"
        using Cons.prems(1) by (rule match_products_inv)
      ultimately show ?thesis using Cons.IH by blast
    qed
  qed
qed

lemma lookupProducts_returns:
  "\<exists>out w'. lookupProducts api w loc t csv = Some (out, w')"
proof (cases "csv = []")
  case True
  then show ?thesis by (simp add: lookupProducts_def)
next
  case False
  then show ?thesis
    by (auto simp: lookupProducts_def chunkArray_chunks_of split: prod.splits sum.splits)
qed

text \<open>
  C2. The lookup action always comes to an end, by returning or with the exception of a
  lookup call. When it returns, every input SKU is, ignoring case, either the SKU of a
  matched item or in the not-found list, never both; the not-found list is the input
  SKUs, as written in the input and in input order, that match no item; and every
  matched item carries, ignoring case, an input SKU.
\<close>

theorem lookupProducts_partition:
  "\<exists>out w'. lookupProducts api w loc t csv = Some (out, w')
     \<and> (\<forall>res. out = Inr res \<longrightarrow>
          (\<forall>s \<in> set (map csv_sku csv).
              (\<exists>p \<in> set (l_products res). toLowerCase (sku p) = toLowerCase s)
                \<noteq> (s \<in> set (l_notFound res)))
          \<and> l_notFound res =
              filter (\<lambda>s. \<forall>p \<in> set (l_products res). toLowerCase (sku p) \<noteq> toLowerCase s)
                (map csv_sku csv)
          \<and> (\<forall>p \<in> set (l_products res).
                \<exists>s \<in> set (map csv_sku csv). toLowerCase (sku p) = toLowerCase s))"
proof -
  obtain out w' where run: "lookupProducts api w loc t csv = Some (out, w')"
    using lookupProducts_returns by blast
  have "(\<forall>s \<in> set (map csv_sku csv).
            (\<exists>p \<in> set (l_products res). toLowerCase (sku p) = toLowerCase s)
              \<noteq> (s \<in> set (l_notFound res)))
        \<and> l_notFound res =
            filter (\<lambda>s. \<forall>p \<in> set (l_products res). toLowerCase (sku p) \<noteq> toLowerCase s)
              (map csv_sku csv)
        \<and> (\<forall>p \<in> set (l_products res).
              \<exists>s \<in> set (map csv_sku csv). toLowerCase (sku p) = toLowerCase s)"
    if out: "out = Inr res" for res
  proof (cases "csv = []")
    case True
    with run out show ?thesis by (auto simp: lookupProducts_def)
  next
    case False
    from run out False obtain allProducts foundSkus where
      batches: "lookup_batches api csv t loc (chunks_of 50 (map csv_sku csv)) ([], []) w
                  = (Inr (allProducts, foundSkus), w')"
      and res: "res = \<lparr>l_products = allProducts,
                        l_notFound = map csv_sku
                          (filter (\<lambda>p. toLowerCase (csv_sku p) \<notin> set foundSkus) csv),
                        l_error = None\<rparr>"
      by (auto simp: lookupProducts_def chunkArray_chunks_of split: prod.splits sum.splits)
    have "found_inv csv ([], [])" by (simp add: found_inv_def)
    from lookup_batches_inv [OF this batches]
    have found: "set foundSkus = (\<lambda>p. toLowerCase (sku p)) ` set allProducts"
      and sub: "set foundSkus \<subseteq> (\<lambda>p. toLowerCase (csv_sku p)) ` set csv"
      unfolding found_inv_def fst_conv snd_conv by blast+
    have member: "(toLowerCase s \<notin> set foundSkus)
        = (\<forall>p \<in> set allProducts. toLowerCase (sku p) \<noteq> toLowerCase s)" for s
      unfolding found image_iff by metis
    have nf: "l_notFound res =
        filter (\<lambda>s. \<forall>p \<in> set (l_products res). toLowerCase (sku p) \<noteq> toLowerCase s)
          (map csv_sku csv)"
      by (simp add: res filter_map comp_def member)
    have one: "\<forall>s \<in> set (map csv_sku csv).
        (\<exists>p \<in> set (l_products res). toLowerCase (sku p) = toLowerCase s)
          \<noteq> (s \<in> set (l_notFound res))"
      unfolding nf by auto
    have matched: "\<forall>p \<in> set (l_products res).
        \<exists>s \<in> set (map csv_sku csv). toLowerCase (sku p) = toLowerCase s"
      using found sub by (auto simp: res)
    from one nf matched show ?thesis by blast
  qed
  with run show ?thesis by blast
qed
theorem lookupProducts_partition_witness:
  "lookupProducts catalog start (Some ''loc'') (Fin 5)
       [\<lparr>csv_sku = ''abc-1'', csv_cost = Fin 10, csv_soh = None\<rparr>,
        \<lparr>csv_sku = ''A2'', csv_cost = Fin 20, csv_soh = None\<rparr>]
     = Some (Inr \<lparr>l_products =
                    [\<lparr>productId = ''p1'', variantId = ''v1'', inventoryItemId = ''i1'',
                      sku = ''ABC-1'', name = ''Widget'', imageUrl = [], cost = Fin 8,
                      price = Fin 15, quantity = 4, costNew = Fin 10, quantityNew = 4,
                      margin = Fin 50, marginStatus = Good, update = True\<rparr>],
                  l_notFound = [''A2''], l_error = None\<rparr>,
             \<lparr>gateway = (),
              calls = [ProductsBySku ''sku:\"abc-1\" OR sku:\"A2\"'' ''loc'']\<rparr>)
   \<and> (\<exists>p \<in> set [\<lparr>productId = ''p1'', variantId = ''v1'', inventoryItemId = ''i1'',
                    sku = ''ABC-1'', name = ''Widget'', imageUrl = [], cost = Fin 8,
                    price = Fin 15, quantity = 4, costNew = Fin 10, quantityNew = 4,
                    margin = Fin 50, marginStatus = Good, update = True\<rparr>].
          toLowerCase (sku p) = toLowerCase ''abc-1'')
   \<and> ''abc-1'' \<notin> set [''A2'']"
proof -
  let ?csv = "[\<lparr>csv_sku = ''abc-1'', csv_cost = Fin 10, csv_soh = None\<rparr>,
               \<lparr>csv_sku = ''A2'', csv_cost = Fin 20, csv_soh = None\<rparr>]"
  let ?item = "\<lparr>productId = ''p1'', variantId = ''v1'', inventoryItemId = ''i1'',
                 sku = ''ABC-1'', name = ''Widget'', imageUrl = [], cost = Fin 8,
                 price = Fin 15, quantity = 4, costNew = Fin 10, quantityNew = 4,
                 margin = Fin 50, marginStatus = Good, update = True\<rparr>"
  let ?res = "\<lparr>l_products = [?item], l_notFound = [''A2''], l_error = None\<rparr>"
  have price: "parseFloat ''15.00'' = Fin 15" and unitCost: "parseFloat ''8.00'' = Fin 8"
    by (simp_all add: parseFloat_def read_sign_def isWhiteSpace_def isDigit_def digits_value_def
        digit_value_def read_exponent_def scale10_def Let_def)
  have low1: "toLowerCase ''ABC-1'' = ''abc-1''" by code_simp
  have low2: "toLowerCase ''abc-1'' = ''abc-1''" by code_simp
  have low3: "toLowerCase ''A2'' = ''a2''" by code_simp
  note low = low1 low2 low3
  have query: "buildSkuQuery [''abc-1'', ''A2''] = ''sku:\"abc-1\" OR sku:\"A2\"''"
    by (simp add: buildSkuQuery_def trim_def isWhiteSpace_def escapeQueryValue_def
        replace_char_def quote_def backslash_def)
  have run: "lookupProducts catalog start (Some ''loc'') (Fin 5) ?csv
      = Some (Inr ?res,
              \<lparr>gateway = (), calls = [ProductsBySku ''sku:\"abc-1\" OR sku:\"A2\"'' ''loc'']\<rparr>)"
    by (simp add: lookupProducts_def chunkArray_chunks_of chunks_of_step query call_products_def
        catalog_def start_def match_products_def match_variant_def normalizeShopifyProduct_def
        low price unitCost or_0_def truthy_def available_quantity_def calculateMargin_def
        getMarginStatus_def Let_def)
  from lookupProducts_partition [of catalog start "Some ''loc''" "Fin 5" ?csv]
  obtain out w' where run': "lookupProducts catalog start (Some ''loc'') (Fin 5) ?csv = Some (out, w')"
    and part: "\<forall>res. out = Inr res \<longrightarrow>
          (\<forall>s \<in> set (map csv_sku ?csv).
              (\<exists>p \<in> set (l_products res). toLowerCase (sku p) = toLowerCase s)
                \<noteq> (s \<in> set (l_notFound res)))"
    by blast
  from run run' have "out = Inr ?res" by simp
  with part have "(\<exists>p \<in> set (l_products ?res). toLowerCase (sku p) = toLowerCase ''abc-1'')
      \<noteq> (''abc-1'' \<in> set (l_notFound ?res))"
    by simp
  then have "(\<exists>p \<in> set [?item]. toLowerCase (sku p) = toLowerCase ''abc-1'')
      \<and> ''abc-1'' \<notin> set [''A2'']"
    by simp
  with run show ?thesis by blast
qed

text \<open>
  The lookup of a product of which two variants carry the same SKU, for a file with that
  SKU: two equal entries, both for the first of the two variants.
\<close>

lemma lookupProducts_same_sku_variants:
  "lookupProducts twin_catalog start (Some ''loc'') (Fin 5)
       [\<lparr>csv_sku = ''A'', csv_cost = Fin 10, csv_soh = None\<rparr>]
     = Some (Inr \<lparr>l_products = [item ''p1'' ''A'' ''1'' 3 3, item ''p1'' ''A'' ''1'' 3 3],
                  l_notFound = [], l_error = None\<rparr>,
             \<lparr>gateway = (), calls = [ProductsBySku ''sku:\"A\"'' ''loc'']\<rparr>)"
proof -
  have price: "parseFloat ''15.00'' = Fin 15" and unitCost: "parseFloat ''8.00'' = Fin 8"
    by (simp_all add: parseFloat_def read_sign_def isWhiteSpace_def isDigit_def digits_value_def
        digit_value_def read_exponent_def scale10_def Let_def)
  have low: "toLowerCase ''A'' = ''a''" by code_simp
  have query: "buildSkuQuery [''A''] = ''sku:\"A\"''"
    by (simp add: buildSkuQuery_def trim_def isWhiteSpace_def escapeQueryValue_def
        replace_char_def quote_def backslash_def)
  show ?thesis
    by (simp add: lookupProducts_def chunkArray_chunks_of chunks_of_step query call_products_def
        twin_catalog_def start_def match_products_def match_variant_def
        normalizeShopifyProduct_def low price unitCost or_0_def truthy_def
        available_quantity_def calculateMargin_def getMarginStatus_def item_def Let_def)
qed

subsection \<open>Commit runs in progress batches\<close>

text \<open>
  The state of \<^verbatim>\<open>useBatchProcessor\<close> (\<^verbatim>\<open>results\<close> is \<open>batchResults\<close> here) and its
  setters.
\<close>

record BatchRunState =
  isProcessing :: bool
  currentBatch :: nat
  totalBatches :: nat
  batchResults :: "UpdateResponse list"

text \<open>
  What \<^verbatim>\<open>submitBatch\<close> resolves to: \<^verbatim>\<open>fetcher.data\<close>, which is \<^verbatim>\<open>undefined\<close>
  (\<open>None\<close>) or what the action returned, of which the handlers read \<^verbatim>\<open>results\<close>, if it
  is an array, and \<^verbatim>\<open>error\<close>. The server that answers is a parameter of the model, a
  function over a state of its own, as the gateway is.
\<close>

record batch_reply =
  reply_results :: "UpdateResponse list option"
  reply_error :: "string option"

text \<open>
  A run, as seen from outside: the server, the batch state, the page's error, the
  payloads submitted and the answers received so far, and every batch state that a
  setter has produced, in order.
\<close>

record 's commit_run =
  server :: 's
  processor :: BatchRunState
  page_error :: "string option"
  submitted :: "NormalizedProduct list list"
  replies :: "batch_reply option list"
  trace :: "BatchRunState list"

definition set_processor ::
  "(BatchRunState \<Rightarrow> BatchRunState) \<Rightarrow> 's commit_run \<Rightarrow> 's commit_run" where
  "set_processor f st = st\<lparr>processor := f (processor st), trace := trace st @ [f (processor st)]\<rparr>"

definition reset_state :: BatchRunState where
  "reset_state = \<lparr>isProcessing = False, currentBatch = 0, totalBatches = 0, batchResults = []\<rparr>"

definition reset :: "'s commit_run \<Rightarrow> 's commit_run" where
  "reset = set_processor (\<lambda>s. reset_state)"

definition setIsProcessing :: "bool \<Rightarrow> 's commit_run \<Rightarrow> 's commit_run" where
  "setIsProcessing v = set_processor (\<lambda>s. s\<lparr>isProcessing := v\<rparr>)"

definition setTotalBatches :: "nat \<Rightarrow> 's commit_run \<Rightarrow> 's commit_run" where
  "setTotalBatches n = set_processor (\<lambda>s. s\<lparr>totalBatches := n\<rparr>)"

definition setCurrentBatch :: "nat \<Rightarrow> 's commit_run \<Rightarrow> 's commit_run" where
  "setCurrentBatch n = set_processor (\<lambda>s. s\<lparr>currentBatch := n\<rparr>)"

definition addResults :: "UpdateResponse list \<Rightarrow> 's commit_run \<Rightarrow> 's commit_run" where
  "addResults newResults = set_processor (\<lambda>s. s\<lparr>batchResults := batchResults s @ newResults\<rparr>)"

text \<open>\<^verbatim>\<open>data && "error" in data && data.error\<close>\<close>

definition has_error :: "batch_reply option \<Rightarrow> bool" where
  "has_error data = (case data of None \<Rightarrow> False | Some d \<Rightarrow> truthy (reply_error d))"

text \<open>The results that an answer adds.\<close>

definition results_of :: "batch_reply option \<Rightarrow> UpdateResponse list" where
  "results_of data =
     (case data of
        None \<Rightarrow> []
      | Some d \<Rightarrow> (case reply_results d of None \<Rightarrow> [] | Some rs \<Rightarrow> rs))"

text \<open>
  The loop of the handlers, with the batches from \<open>index\<close> on as its second argument:
  \<^verbatim>\<open>
  for (let index = 0; index < batches.length; index += 1) {
    batchProcessor.setCurrentBatch(index + 1);
    const data = await submitBatch({ intent: ..., products: JSON.stringify(batches[index]), ... });
    if (data && "results" in data && Array.isArray(data.results)) {
      batchProcessor.addResults(data.results);
    }
    if (data && "error" in data && data.error) { setError(data.error); break; }
  }
  \<close>
\<close>

fun run_batches ::
  "('s \<Rightarrow> NormalizedProduct list \<Rightarrow> batch_reply option \<times> 's) \<Rightarrow>
   NormalizedProduct list list \<Rightarrow> nat \<Rightarrow> 's commit_run \<Rightarrow> 's commit_run" where
  "run_batches submitBatch [] index st = st"
| "run_batches submitBatch (b # rest) index st =
     (let st1 = setCurrentBatch (index + 1) st;
          (data, srv) = submitBatch (server st1) b;
          st2 = st1\<lparr>server := srv, submitted := submitted st1 @ [b],
                    replies := replies st1 @ [data]\<rparr>;
          st3 = (case data of
                   None \<Rightarrow> st2
                 | Some d \<Rightarrow>
                     (case reply_results d of
                        None \<Rightarrow> st2
                      | Some rs \<Rightarrow> addResults rs st2))
      in if has_error data
         then st3\<lparr>page_error := (case data of None \<Rightarrow> None | Some d \<Rightarrow> reply_error d)\<rparr>
         else run_batches submitBatch rest (index + 1) st3)"

definition updateBatchSize :: nat where
  "updateBatchSize = 50"

text \<open>
  \<^verbatim>\<open>handleUpdatePricing\<close> and \<^verbatim>\<open>handleUpdateStock\<close>, which differ only in the payload
  that \<^verbatim>\<open>submitBatch\<close> carries to the server. The run is observed from its start: the
  logs are empty when the handler is called.
\<close>

definition run_commit ::
  "('s \<Rightarrow> NormalizedProduct list \<Rightarrow> batch_reply option \<times> 's) \<Rightarrow> 's \<Rightarrow> BatchRunState \<Rightarrow>
   NormalizedProduct list \<Rightarrow> 's commit_run option" where
  "run_commit submitBatch srv before ps =
     (let st0 = \<lparr>server = srv, processor = before, page_error = None, submitted = [],
                 replies = [], trace = []\<rparr>;
          productsToUpdate = filter update ps
      in if productsToUpdate = []
         then Some (st0\<lparr>page_error := Some ''No products selected for update''\<rparr>)
         else
           let st1 = setIsProcessing True (reset st0)
           in case chunkArray productsToUpdate updateBatchSize of
                None \<Rightarrow> None
              | Some batches \<Rightarrow>
                  Some (setIsProcessing False
                          (run_batches submitBatch batches 0
                             (setTotalBatches (length batches) st1))))"

definition handleUpdatePricing ::
  "('s \<Rightarrow> NormalizedProduct list \<Rightarrow> batch_reply option \<times> 's) \<Rightarrow> 's \<Rightarrow> BatchRunState \<Rightarrow>
   NormalizedProduct list \<Rightarrow> 's commit_run option" where
  "handleUpdatePricing submitBatch = run_commit submitBatch"

definition handleUpdateStock ::
  "('s \<Rightarrow> NormalizedProduct list \<Rightarrow> batch_reply option \<times> 's) \<Rightarrow> 's \<Rightarrow> BatchRunState \<Rightarrow>
   NormalizedProduct list \<Rightarrow> 's commit_run option" where
  "handleUpdateStock submitBatch = run_commit submitBatch"

text \<open>
  The order in which a batch state may follow another within a run: the batch counter
  does not decrease and the results are extended at the end.
\<close>

definition grows :: "BatchRunState \<Rightarrow> BatchRunState \<Rightarrow> bool" where
  "grows a b = (currentBatch a \<le> currentBatch b \<and> (\<exists>zs. batchResults b = batchResults a @ zs))"

text \<open>A server for the examples: it reports every item of the batch as updated.\<close>

definition echo_server :: "unit \<Rightarrow> NormalizedProduct list \<Rightarrow> batch_reply option \<times> unit" where
  "echo_server s b =
     (Some \<lparr>reply_results = Some (map (\<lambda>p. \<lparr>r_sku = sku p, r_updated = True,
                                              r_message = ''Pricing updated'',
                                              r_error = None\<rparr>) b),
            reply_error = None\<rparr>, s)"

text \<open>
  Strictly sequential processing, in the words of the specification: the answers that the
  server gives when the payloads are submitted to it one after the other, each to the
  state in which the answer to the payload before has left it, and the state in which the
  last answer leaves it.
\<close>

fun sequential_answers ::
  "('s \<Rightarrow> NormalizedProduct list \<Rightarrow> batch_reply option \<times> 's) \<Rightarrow> 's \<Rightarrow>
   NormalizedProduct list list \<Rightarrow> batch_reply option list \<times> 's" where
  "sequential_answers submitBatch srv [] = ([], srv)"
| "sequential_answers submitBatch srv (b # rest) =
     (let (data, srv') = submitBatch srv b;
          (more, srv'') = sequential_answers submitBatch srv' rest
      in (data # more, srv''))"

lemma sequential_answers_snoc:
  "sequential_answers submitBatch srv (bs @ [b]) =
     (let (answers, srv') = sequential_answers submitBatch srv bs;
          (data, srv'') = submitBatch srv' b
      in (answers @ [data], srv''))"
  by (induction bs arbitrary: srv) (simp_all add: split_beta Let_def)

lemma sequential_answers_echo:
  "sequential_answers echo_server s bs = (map (\<lambda>b. fst (echo_server () b)) bs, ())"
  by (induction bs arbitrary: s) (simp_all add: echo_server_def)

lemma grows_refl: "grows a a"
  by (simp add: grows_def)

lemma grows_trans: "grows a b \<Longrightarrow> grows b c \<Longrightarrow> grows a c"
  by (auto simp: grows_def)

lemma set_processor_fields [simp]:
  "processor (set_processor f st) = f (processor st)"
  "trace (set_processor f st) = trace st @ [f (processor st)]"
  "server (set_processor f st) = server st"
  "submitted (set_processor f st) = submitted st"
  "replies (set_processor f st) = replies st"
  "page_error (set_processor f st) = page_error st"
  by (simp_all add: set_processor_def)

text \<open>
  The states of a run so far form a chain: each grows into every later one and into the
  current state.
\<close>

definition chain :: "'s commit_run \<Rightarrow> bool" where
  "chain st = (sorted_wrt grows (trace st) \<and> (\<forall>x \<in> set (trace st). grows x (processor st)))"

lemma chain_set_processor:
  assumes "chain st" and "grows (processor st) (f (processor st))"
  shows "chain (set_processor f st)"
proof -
  have "\<forall>x \<in> set (trace st). grows x (f (processor st))"
    using assms grows_trans unfolding chain_def by blast
  with assms(1) show ?thesis
    by (simp add: chain_def sorted_wrt_append grows_refl)
qed

text \<open>
  What holds after \<open>k\<close> batches have been submitted to a server that started in state
  \<open>origin\<close>, and what holds between two turns of the loop.
\<close>

definition core ::
  "('s \<Rightarrow> NormalizedProduct list \<Rightarrow> batch_reply option \<times> 's) \<Rightarrow> 's \<Rightarrow>
   NormalizedProduct list list \<Rightarrow> nat \<Rightarrow> 's commit_run \<Rightarrow> bool" where
  "core submitBatch origin batches k st =
     (chain st \<and> trace st \<noteq> [] \<and> hd (trace st) = reset_state
      \<and> currentBatch (processor st) = k
      \<and> currentBatch ` set (trace st) = {0..k}
      \<and> k \<le> length batches
      \<and> submitted st = take k batches
      \<and> length (replies st) = k
      \<and> (replies st, server st) = sequential_answers submitBatch origin (take k batches)
      \<and> (\<forall>d \<in> set (butlast (replies st)). \<not> has_error d)
      \<and> batchResults (processor st) = concat (map results_of (replies st))
      \<and> totalBatches (processor st) = length batches)"

definition run_inv ::
  "('s \<Rightarrow> NormalizedProduct list \<Rightarrow> batch_reply option \<times> 's) \<Rightarrow> 's \<Rightarrow>
   NormalizedProduct list list \<Rightarrow> nat \<Rightarrow> 's commit_run \<Rightarrow> bool" where
  "run_inv submitBatch origin batches k st =
     (core submitBatch origin batches k st \<and> (\<forall>d \<in> set (replies st). \<not> has_error d))"

definition run_post ::
  "('s \<Rightarrow> NormalizedProduct list \<Rightarrow> batch_reply option \<times> 's) \<Rightarrow> 's \<Rightarrow>
   NormalizedProduct list list \<Rightarrow> 's commit_run \<Rightarrow> bool" where
  "run_post submitBatch origin batches st =
     (\<exists>k. core submitBatch origin batches k st
          \<and> (k = length batches \<or> (replies st \<noteq> [] \<and> has_error (last (replies st)))))"

lemma core_neutral:
  assumes "core submitBatch origin batches k st"
    and "currentBatch (f (processor st)) = currentBatch (processor st)"
    and "batchResults (f (processor st)) = batchResults (processor st)"
    and "totalBatches (f (processor st)) = totalBatches (processor st)"
  shows "core submitBatch origin batches k (set_processor f st)"
proof -
  have "grows (processor st) (f (processor st))"
    using assms(2,3) by (simp add: grows_def)
  with assms(1) have "chain (set_processor f st)"
    by (simp add: core_def chain_set_processor)
  moreover have "currentBatch ` set (trace (set_processor f st)) = {0..k}"
    using assms(1,2) by (auto simp: core_def)
  ultimately show ?thesis
    using assms by (simp add: core_def)
qed

lemma core_page_error:
  "core submitBatch origin batches k (st\<lparr>page_error := e\<rparr>) = core submitBatch origin batches k st"
  by (simp add: core_def chain_def)

lemma core_advance:
  assumes inv: "run_inv submitBatch origin batches k st" and k: "k < length batches"
    and answer: "submitBatch (server st) (batches ! k) = (data, srv)"
    and st2: "st2 = (setCurrentBatch (Suc k) st)\<lparr>server := srv,
                submitted := submitted (setCurrentBatch (Suc k) st) @ [batches ! k],
                replies := replies (setCurrentBatch (Suc k) st) @ [data]\<rparr>"
    and st3: "st3 = (case data of
                      None \<Rightarrow> st2
                    | Some d \<Rightarrow> (case reply_results d of
                                   None \<Rightarrow> st2
                                 | Some rs \<Rightarrow> addResults rs st2))"
  shows "core submitBatch origin batches (Suc k) st3"
proof -
  from inv have c: "core submitBatch origin batches k st"
    and noerr: "\<forall>d \<in> set (replies st). \<not> has_error d"
    by (simp_all add: run_inv_def)
  let ?p1 = "(processor st)\<lparr>currentBatch := Suc k\<rparr>"
  have g1: "grows (processor st) ?p1"
    using c by (simp add: grows_def core_def)
  have chain1: "chain (setCurrentBatch (Suc k) st)"
    unfolding setCurrentBatch_def using c g1 by (simp add: core_def chain_set_processor)
  have chain2: "chain st2"
    using chain1 by (simp add: st2 chain_def)
  have proc2: "processor st2 = ?p1" and trace2: "trace st2 = trace st @ [?p1]"
    and sub2: "submitted st2 = submitted st @ [batches ! k]"
    and rep2: "replies st2 = replies st @ [data]"
    and srv2: "server st2 = srv"
    by (simp_all add: st2 setCurrentBatch_def)
  have take: "take (Suc k) batches = take k batches @ [batches ! k]"
    using k by (simp add: take_Suc_conv_app_nth)
  from c have before: "sequential_answers submitBatch origin (take k batches)
      = (replies st, server st)"
    by (simp add: core_def)
  have answers2: "(replies st2, server st2)
      = sequential_answers submitBatch origin (take (Suc k) batches)"
    unfolding take sequential_answers_snoc before rep2 srv2 by (simp add: answer)
  have core2: "chain st2 \<and> trace st2 \<noteq> [] \<and> hd (trace st2) = reset_state
      \<and> currentBatch (processor st2) = Suc k
      \<and> currentBatch ` set (trace st2) = {0..Suc k}
      \<and> submitted st2 = take (Suc k) batches
      \<and> length (replies st2) = Suc k
      \<and> (\<forall>d \<in> set (butlast (replies st2)). \<not> has_error d)
      \<and> batchResults (processor st2) = concat (map results_of (replies st))
      \<and> totalBatches (processor st2) = length batches"
    using c noerr chain2
    by (auto simp: core_def proc2 trace2 sub2 rep2 take atLeast0_atMost_Suc)
  show ?thesis
  proof (cases "\<exists>d rs. data = Some d \<and> reply_results d = Some rs")
    case False
    then have same: "st3 = st2" and none: "results_of data = []"
      by (auto simp: st3 results_of_def split: option.splits)
    show ?thesis
      using core2 answers2 k by (simp add: core_def same rep2 none)
  next
    case True
    then obtain d rs where d: "data = Some d" and rs: "reply_results d = Some rs" by blast
    then have st3': "st3 = addResults rs st2" and res: "results_of data = rs"
      by (simp_all add: st3 results_of_def)
    have "grows (processor st2) ((processor st2)\<lparr>batchResults := batchResults (processor st2) @ rs\<rparr>)"
      by (simp add: grows_def)
    with core2 have chain3: "chain st3"
      unfolding st3' addResults_def by (simp add: chain_set_processor)
    have "currentBatch ` set (trace st3) = {0..Suc k}"
      using core2 by (auto simp: st3' addResults_def)
    with core2 answers2 chain3 k show ?thesis
      by (simp add: core_def st3' addResults_def rep2 res)
  qed
qed

lemma run_batches_post:
  "run_inv submitBatch origin batches k st \<Longrightarrow> rest = drop k batches \<Longrightarrow>
   run_post submitBatch origin batches (run_batches submitBatch rest k st)"
proof (induction rest arbitrary: k st)
  case Nil
  then have "length batches \<le> k" by simp
  moreover from Nil have "core submitBatch origin batches k st" by (simp add: run_inv_def)
  ultimately show ?case
    by (auto simp: run_post_def core_def)
next
  case (Cons b rest)
  from Cons.prems(2) have k: "k < length batches"
    by (metis drop_all list.distinct(1) not_le)
  from Cons.prems(2) k have b: "b = batches ! k" and rest: "rest = drop (Suc k) batches"
    by (simp_all add: Cons_nth_drop_Suc [symmetric])
  obtain data srv where answer: "submitBatch (server (setCurrentBatch (Suc k) st)) b = (data, srv)"
    by (cases "submitBatch (server (setCurrentBatch (Suc k) st)) b")
  then have answer': "submitBatch (server st) (batches ! k) = (data, srv)"
    by (simp add: setCurrentBatch_def b)
  define st2 where "st2 = (setCurrentBatch (Suc k) st)\<lparr>server := srv,
      submitted := submitted (setCurrentBatch (Suc k) st) @ [batches ! k],
      replies := replies (setCurrentBatch (Suc k) st) @ [data]\<rparr>"
  define st3 where "st3 = (case data of
      None \<Rightarrow> st2
    | Some d \<Rightarrow> (case reply_results d of None \<Rightarrow> st2 | Some rs \<Rightarrow> addResults rs st2))"
  have core3: "core submitBatch origin batches (Suc k) st3"
    using Cons.prems(1) k answer' st2_def st3_def by (rule core_advance)
  have rep3: "replies st3 = replies st @ [data]"
    by (simp add: st3_def st2_def setCurrentBatch_def addResults_def split: option.splits)
  have unfold: "run_batches submitBatch (b # rest) k st =
      (if has_error data
       then st3\<lparr>page_error := (case data of None \<Rightarrow> None | Some d \<Rightarrow> reply_error d)\<rparr>
       else run_batches submitBatch rest (Suc k) st3)"
    using answer unfolding st3_def st2_def b by (simp add: Let_def)
  show ?case
  proof (cases "has_error data")
    case True
    have "run_post submitBatch origin batches
        (st3\<lparr>page_error := (case data of None \<Rightarrow> None | Some d \<Rightarrow> reply_error d)\<rparr>)"
      unfolding run_post_def
      using core3 True rep3 by (intro exI [of _ "Suc k"]) (simp add: core_page_error)
    with True show ?thesis by (simp only: unfold if_True)
  next
    case False
    from Cons.prems(1) have "\<forall>d \<in> set (replies st). \<not> has_error d"
      by (simp add: run_inv_def)
    with False core3 rep3 have "run_inv submitBatch origin batches (Suc k) st3"
      by (simp add: run_inv_def)
    from Cons.IH [OF this rest] False show ?thesis
      by (simp only: unfold if_False)
  qed
qed

lemma run_commit_post:
  assumes "filter update ps \<noteq> []"
  shows "\<exists>st. run_commit submitBatch srv before ps = Some st
           \<and> run_post submitBatch srv (chunks_of 50 (filter update ps)) st"
proof -
  let ?batches = "chunks_of 50 (filter update ps)"
  let ?st0 = "\<lparr>server = srv, processor = before, page_error = None, submitted = [],
               replies = [], trace = []\<rparr>"
  let ?start = "setTotalBatches (length ?batches) (setIsProcessing True (reset ?st0))"
  have "run_inv submitBatch srv ?batches 0 ?start"
    by (simp add: run_inv_def core_def chain_def setTotalBatches_def setIsProcessing_def
        reset_def reset_state_def grows_def)
  then have "run_post submitBatch srv ?batches (run_batches submitBatch ?batches 0 ?start)"
    by (rule run_batches_post) simp
  then obtain k where c: "core submitBatch srv ?batches k (run_batches submitBatch ?batches 0 ?start)"
    and fin: "k = length ?batches
        \<or> (replies (run_batches submitBatch ?batches 0 ?start) \<noteq> []
            \<and> has_error (last (replies (run_batches submitBatch ?batches 0 ?start))))"
    unfolding run_post_def by blast
  have "core submitBatch srv ?batches k
      (set_processor (\<lambda>s. s\<lparr>isProcessing := False\<rparr>) (run_batches submitBatch ?batches 0 ?start))"
    using c by (rule core_neutral) simp_all
  then have "core submitBatch srv ?batches k
      (setIsProcessing False (run_batches submitBatch ?batches 0 ?start))"
    by (simp add: setIsProcessing_def)
  moreover have "replies (setIsProcessing False (run_batches submitBatch ?batches 0 ?start))
      = replies (run_batches submitBatch ?batches 0 ?start)"
    by (simp add: setIsProcessing_def)
  ultimately have "run_post submitBatch srv ?batches
      (setIsProcessing False (run_batches submitBatch ?batches 0 ?start))"
    unfolding run_post_def using fin by (intro exI [of _ k]) simp
  moreover have "run_commit submitBatch srv before ps
      = Some (setIsProcessing False (run_batches submitBatch ?batches 0 ?start))"
    using assms by (simp add: run_commit_def updateBatchSize_def chunkArray_chunks_of Let_def)
  ultimately show ?thesis by simp
qed

text \<open>
  C5. A commit run over a non-empty set of included items returns. Its progress batches
  are the chunks of size 50 of the included items, in input order. The payloads submitted
  are these batches, one after the other from the first on; the answers received are
  those that \<open>submitBatch\<close> gives to these payloads in this order, each submitted to the
  server state that the answer before has left, and the server ends in the state that the
  last answer leaves. All batches are submitted unless an answer carries an error: the
  first such answer ends the run. The first state of the run is the reset state; from
  then on each state grows into every later one: the batch counter never decreases and
  the results are only extended at the end. The counter takes exactly the values from
  \<open>0\<close> to the number of submitted batches, the total is the number of batches, and the
  results at the end are the results of the answers received, appended in order.
\<close>

theorem commit_run_batches:
  assumes "filter update ps \<noteq> []"
  shows "\<exists>st. handleUpdatePricing submitBatch srv before ps = Some st
           \<and> handleUpdateStock submitBatch srv before ps = Some st
           \<and> (let batches = chunks_of 50 (filter update ps); k = length (submitted st)
              in concat batches = filter update ps
                 \<and> (\<forall>b \<in> set batches. b \<noteq> [] \<and> length b \<le> 50)
                 \<and> (\<forall>b \<in> set (butlast batches). length b = 50)
                 \<and> submitted st = take k batches
                 \<and> length (replies st) = k
                 \<and> (replies st, server st) = sequential_answers submitBatch srv (take k batches)
                 \<and> (\<forall>d \<in> set (butlast (replies st)). \<not> has_error d)
                 \<and> (k = length batches \<or> (replies st \<noteq> [] \<and> has_error (last (replies st))))
                 \<and> hd (trace st) = reset_state
                 \<and> (\<forall>i j. i < j \<and> j < length (trace st) \<longrightarrow> grows (trace st ! i) (trace st ! j))
                 \<and> currentBatch ` set (trace st) = {0..k}
                 \<and> currentBatch (processor st) = k
                 \<and> totalBatches (processor st) = length batches
                 \<and> batchResults (processor st) = concat (map results_of (replies st))
                 \<and> batchResults (processor st)
                     = concat (map results_of
                         (fst (sequential_answers submitBatch srv (take k batches)))))"
proof -
  let ?batches = "chunks_of 50 (filter update ps)"
  from run_commit_post [OF assms, of submitBatch srv before]
  obtain st k where run: "run_commit submitBatch srv before ps = Some st"
    and c: "core submitBatch srv ?batches k st"
    and fin: "k = length ?batches \<or> (replies st \<noteq> [] \<and> has_error (last (replies st)))"
    unfolding run_post_def by blast
  from c have k: "length (submitted st) = k"
    by (simp add: core_def)
  from c have sorted: "sorted_wrt grows (trace st)"
    by (simp add: core_def chain_def)
  have order: "\<forall>i j. i < j \<and> j < length (trace st) \<longrightarrow> grows (trace st ! i) (trace st ! j)"
    using sorted by (simp add: sorted_wrt_iff_nth_less)
  have chunks: "concat ?batches = filter update ps"
    "\<forall>b \<in> set ?batches. b \<noteq> [] \<and> length b \<le> 50"
    "\<forall>b \<in> set (butlast ?batches). length b = 50"
    using chunks_of_bounds [of 50 _ "filter update ps"] chunks_of_full [of 50 _ "filter update ps"]
    by (simp_all add: concat_chunks_of)
  from c have answers: "(replies st, server st)
      = sequential_answers submitBatch srv (take k ?batches)"
    by (simp add: core_def)
  then have fst_answers: "fst (sequential_answers submitBatch srv (take k ?batches)) = replies st"
    by (metis fst_conv)
  have "let batches = ?batches; k = length (submitted st)
        in concat batches = filter update ps
           \<and> (\<forall>b \<in> set batches. b \<noteq> [] \<and> length b \<le> 50)
           \<and> (\<forall>b \<in> set (butlast batches). length b = 50)
           \<and> submitted st = take k batches
           \<and> length (replies st) = k
           \<and> (replies st, server st) = sequential_answers submitBatch srv (take k batches)
           \<and> (\<forall>d \<in> set (butlast (replies st)). \<not> has_error d)
           \<and> (k = length batches \<or> (replies st \<noteq> [] \<and> has_error (last (replies st))))
           \<and> hd (trace st) = reset_state
           \<and> (\<forall>i j. i < j \<and> j < length (trace st) \<longrightarrow> grows (trace st ! i) (trace st ! j))
           \<and> currentBatch ` set (trace st) = {0..k}
           \<and> currentBatch (processor st) = k
           \<and> totalBatches (processor st) = length batches
           \<and> batchResults (processor st) = concat (map results_of (replies st))
           \<and> batchResults (processor st)
               = concat (map results_of
                   (fst (sequential_answers submitBatch srv (take k batches))))"
    unfolding Let_def k fst_answers
    using c fin order chunks answers by (simp add: core_def)
  with run show ?thesis
    by (simp add: handleUpdatePricing_def handleUpdateStock_def)
qed

theorem commit_run_batches_witness:
  "filter update (replicate 120 (item ''p1'' ''A'' ''1'' 3 3)) \<noteq> []
   \<and> map length (chunks_of 50 (filter update (replicate 120 (item ''p1'' ''A'' ''1'' 3 3))))
       = [50, 50, 20]
   \<and> (\<exists>st. handleUpdatePricing echo_server () reset_state
              (replicate 120 (item ''p1'' ''A'' ''1'' 3 3)) = Some st
          \<and> map length (submitted st) = [50, 50, 20]
          \<and> map (\<lambda>d. length (results_of d)) (replies st) = [50, 50, 20]
          \<and> batchResults (processor st)
              = replicate 120 \<lparr>r_sku = ''A'', r_updated = True, r_message = ''Pricing updated'',
                               r_error = None\<rparr>
          \<and> currentBatch (processor st) = 3
          \<and> currentBatch ` set (trace st) = {0..3}
          \<and> totalBatches (processor st) = 3
          \<and> hd (trace st) = reset_state)"
proof -
  let ?x = "item ''p1'' ''A'' ''1'' 3 3"
  let ?y = "\<lparr>r_sku = ''A'', r_updated = True, r_message = ''Pricing updated'', r_error = None\<rparr>"
  let ?ps = "replicate 120 ?x"
  have included: "filter update ?ps = ?ps"
    by (simp add: item_def)
  have ne: "filter update ?ps \<noteq> []"
    unfolding included by simp
  have batches: "chunks_of 50 ?ps = [replicate 50 ?x, replicate 50 ?x, replicate 20 ?x]"
    by (simp add: chunks_of_step)
  from commit_run_batches [OF ne, of echo_server "()" reset_state]
  obtain st where run: "handleUpdatePricing echo_server () reset_state ?ps = Some st"
    and sub: "submitted st = take (length (submitted st)) (chunks_of 50 (filter update ?ps))"
    and answers: "(replies st, server st) = sequential_answers echo_server ()
        (take (length (submitted st)) (chunks_of 50 (filter update ?ps)))"
    and fin: "length (submitted st) = length (chunks_of 50 (filter update ?ps))
        \<or> (replies st \<noteq> [] \<and> has_error (last (replies st)))"
    and counter: "currentBatch ` set (trace st) = {0..length (submitted st)}"
    and current': "currentBatch (processor st) = length (submitted st)"
    and total: "totalBatches (processor st) = length (chunks_of 50 (filter update ?ps))"
    and first: "hd (trace st) = reset_state"
    and res: "batchResults (processor st) = concat (map results_of (replies st))"
    unfolding Let_def by blast
  from answers have rep: "replies st
      = map (\<lambda>b. fst (echo_server () b)) (take (length (submitted st)) (chunks_of 50 (filter update ?ps)))"
    by (simp add: sequential_answers_echo)
  have "\<not> (replies st \<noteq> [] \<and> has_error (last (replies st)))"
  proof
    assume bad: "replies st \<noteq> [] \<and> has_error (last (replies st))"
    then have "last (replies st) \<in> set (replies st)" by simp
    then obtain b where "last (replies st) = fst (echo_server () b)"
      unfolding rep by auto
    with bad show False
      by (simp add: echo_server_def has_error_def truthy_def)
  qed
  with fin have all: "length (submitted st) = 3"
    unfolding included batches by simp
  from sub have sub': "submitted st = [replicate 50 ?x, replicate 50 ?x, replicate 20 ?x]"
    unfolding all included batches by simp
  from rep have rep': "replies st
      = map (\<lambda>b. fst (echo_server () b)) [replicate 50 ?x, replicate 50 ?x, replicate 20 ?x]"
    unfolding all included batches by simp
  have results: "batchResults (processor st) = replicate 120 ?y"
    unfolding res rep'
    by (simp add: echo_server_def results_of_def item_def replicate_add [symmetric])
  have sizes: "map (\<lambda>d. length (results_of d)) (replies st) = [50, 50, 20]"
    unfolding rep' by (simp add: echo_server_def results_of_def)
  have current: "currentBatch (processor st) = 3"
    using current' all by simp
  from total have "totalBatches (processor st) = 3"
    unfolding included batches by simp
  with run first ne sub' sizes results counter all current show ?thesis
    unfolding included batches by simp
qed

end
